theory Spec2Isabelle
  imports Main
begin

section \<open>Go library functions used by \<open>pkg/storage/storage.go\<close>\<close>

text \<open>
  Go strings are byte sequences; they are modelled as \<open>string\<close> (a list of 8-bit
  characters). The functions of the Go standard library that \<open>storage.go\<close> calls are
  written out here for the separator \<open>/\<close>, following their documented behaviour.
\<close>

definition sep :: char where
  "sep = CHR ''/''"

text \<open>\<open>strings.Split(s, "/")\<close>: the pieces between separators; never empty, and
  \<open>Split("", "/")\<close> is the one-element list holding the empty string.\<close>

fun Split :: "string \<Rightarrow> string list" where
  "Split [] = [[]]"
| "Split (c # cs) =
     (if c = sep then [] # Split cs
      else (c # hd (Split cs)) # tl (Split cs))"

text \<open>\<open>strings.Join(elems, "/")\<close>.\<close>

fun Join :: "string list \<Rightarrow> string" where
  "Join [] = []"
| "Join [x] = x"
| "Join (x # y # ys) = x @ sep # Join (y # ys)"

text \<open>\<open>strings.HasPrefix\<close>, \<open>strings.HasSuffix\<close> and \<open>strings.TrimPrefix\<close>.\<close>

definition HasPrefix :: "string \<Rightarrow> string \<Rightarrow> bool" where
  "HasPrefix s p = (take (length p) s = p)"

definition HasSuffix :: "string \<Rightarrow> string \<Rightarrow> bool" where
  "HasSuffix s p = (length p \<le> length s \<and> drop (length s - length p) s = p)"

definition TrimPrefix :: "string \<Rightarrow> string \<Rightarrow> string" where
  "TrimPrefix s p = (if HasPrefix s p then drop (length p) s else s)"

text \<open>\<open>strings.ToLower\<close> on ASCII text (header names and metadata keys are ASCII
  tokens): the letters \<open>A\<close> to \<open>Z\<close> are mapped to \<open>a\<close> to \<open>z\<close>, every other byte is kept.\<close>

definition lowerTable :: "(char \<times> char) list" where
  "lowerTable = zip ''ABCDEFGHIJKLMNOPQRSTUVWXYZ'' ''abcdefghijklmnopqrstuvwxyz''"

definition toLowerChar :: "char \<Rightarrow> char" where
  "toLowerChar c = (case map_of lowerTable c of Some d \<Rightarrow> d | None \<Rightarrow> c)"

definition ToLower :: "string \<Rightarrow> string" where
  "ToLower s = map toLowerChar s"

text \<open>\<open>strings.Replace(s, old, "", 1)\<close> for a non-empty \<open>old\<close>: the first occurrence of
  \<open>old\<close> in \<open>s\<close> is removed, a string without an occurrence is returned unchanged.\<close>

fun RemoveFirst :: "string \<Rightarrow> string \<Rightarrow> string" where
  "RemoveFirst [] old = []"
| "RemoveFirst (c # cs) old =
     (if HasPrefix (c # cs) old then drop (length old) (c # cs)
      else c # RemoveFirst cs old)"

text \<open>
  \<open>path.Clean\<close>: duplicate separators and \<open>.\<close> elements are dropped, an inner \<open>..\<close>
  removes the element before it, a \<open>..\<close> at the start of a rooted path is dropped, and a
  relative path keeps its leading \<open>..\<close> elements. The result ends in a separator only
  when it is the root; the empty path cleans to \<open>.\<close>. \<open>cleanElems\<close> walks the elements
  with the output kept as a stack (last element first).
\<close>

fun cleanElems :: "bool \<Rightarrow> string list \<Rightarrow> string list \<Rightarrow> string list" where
  "cleanElems rooted out [] = rev out"
| "cleanElems rooted out (e # es) =
     (if e = [] \<or> e = ''.'' then cleanElems rooted out es
      else if e = ''..'' then
        (if out \<noteq> [] \<and> hd out \<noteq> ''..'' then cleanElems rooted (tl out) es
         else if \<not> rooted then cleanElems rooted (''..'' # out) es
         else cleanElems rooted out es)
      else cleanElems rooted (e # out) es)"

definition Clean :: "string \<Rightarrow> string" where
  "Clean p =
     (if p = [] then ''.''
      else let rooted = (hd p = sep);
               body = Join (cleanElems rooted [] (Split p))
           in if rooted then sep # body
              else if body = [] then ''.'' else body)"

text \<open>\<open>path.Join(elem...)\<close>: empty elements before the first non-empty one are
  skipped, the rest is joined with separators and cleaned; if every element is empty
  the result is the empty string.\<close>

definition joinStep :: "string \<Rightarrow> string \<Rightarrow> string" where
  "joinStep buf e =
     (if buf \<noteq> [] \<or> e \<noteq> [] then (if buf \<noteq> [] then buf @ [sep] else buf) @ e
      else buf)"

definition pathJoin :: "string list \<Rightarrow> string" where
  "pathJoin elems = (if concat elems = [] then [] else Clean (foldl joinStep [] elems))"

text \<open>\<open>path.Ext\<close>: the suffix starting at the last dot of the last element of the
  path, empty when that element has no dot. The scan runs from the end of the string
  and stops at the first separator.\<close>

fun extScan :: "string \<Rightarrow> string \<Rightarrow> string" where
  "extScan [] acc = []"
| "extScan (c # cs) acc =
     (if c = sep then []
      else if c = CHR ''.'' then c # acc
      else extScan cs (c # acc))"

definition Ext :: "string \<Rightarrow> string" where
  "Ext p = extScan (rev p) []"

section \<open>Data model\<close>

text \<open>
  Modelled from the spec: the packages that declare the storage configuration and the
  object reference are not among the sources. \<open>Storage\<close> holds the fields of the
  configuration that \<open>storage.go\<close> reads apart from the driver parameters: the kind,
  the path prefix, the hash that keys the client cache, and the bucket override.
\<close>

record Storage =
  Kind :: string
  PathPrefix :: string
  Hash :: string
  Bucket :: string

text \<open>
  Modelled from the spec: the logical reference \<open>object.FileObject\<close>, with its bucket,
  key, the path of its URI (\<open>obj.Uri.Path\<close>) and its storage configuration.
\<close>

record FileObject =
  objBucket :: string
  objKey :: string
  objUriPath :: string
  objStorage :: Storage

section \<open>Key resolution\<close>

definition getKey :: "FileObject \<Rightarrow> string" where
  "getKey obj =
     (if Kind (objStorage obj) = ''b2''
      then TrimPrefix (pathJoin [PathPrefix (objStorage obj), objKey obj]) ''/''
      else pathJoin [PathPrefix (objStorage obj), objKey obj])"

section \<open>The backend capability\<close>

text \<open>
  An error value returned by the backend driver is either the sentinel
  \<open>stow.ErrNotFound\<close> or some other error. A run-time panic of the Go code (an index
  out of range, a failed type assertion) is a value of its own type, and an operation
  that can panic returns \<open>panic + 'a\<close>.
\<close>

datatype err = ErrNotFound | ErrOther string

datatype panic = IndexOutOfRange | TypeAssertion

text \<open>A metadata value is an \<open>interface{}\<close>: a string, a bool, or something else.
  A Go map is an association list with distinct keys; its order stands for the order
  in which \<open>range\<close> happens to visit the entries.\<close>

datatype mval = VString string | VBool bool | VOther

type_synonym metadata = "(string \<times> mval) list"

type_synonym Time = int

type_synonym stream = string

text \<open>\<open>stow.Item\<close>: the field \<open>itemID\<close> is what the method \<open>ID\<close> returns, and so
  on. \<open>ETag\<close>, \<open>LastMod\<close> and \<open>Size\<close> return a value together with an optional
  error, because \<open>List\<close> uses the value and ignores the error.\<close>

record stowItem =
  itemID :: string
  itemName :: string
  itemMetadata :: "err + metadata"
  itemETag :: "string \<times> err option"
  itemLastMod :: "Time \<times> err option"
  itemSize :: "int \<times> err option"
  itemOpen :: "err + stream"

text \<open>\<open>stow.Container\<close> and \<open>stow.Location\<close>, as seen during one operation.\<close>

record stowContainer =
  Item :: "string \<Rightarrow> err + stowItem"
  Items :: "string \<Rightarrow> string \<Rightarrow> int \<Rightarrow> err + (stowItem list \<times> string)"
  RemoveItem :: "string \<Rightarrow> err option"

record stowLocation =
  Container :: "string \<Rightarrow> err + stowContainer"
  CreateContainer :: "string \<Rightarrow> err + stowContainer"

text \<open>
  What the operations take from outside the package: \<open>stow.Dial\<close> (its outcome is
  determined by the kind and the storage configuration, from which \<open>getClient\<close> builds
  the driver's parameter map), \<open>mime.TypeByExtension\<close>, and the two time layouts
  \<open>http.TimeFormat\<close> (of the UTC time) and \<open>time.RFC3339\<close>.
\<close>

record Env =
  Dial :: "string \<Rightarrow> Storage \<Rightarrow> err + stowLocation"
  TypeByExtension :: "string \<Rightarrow> string"
  FormatHTTP :: "Time \<Rightarrow> string"
  FormatRFC3339 :: "Time \<Rightarrow> string"

section \<open>The listing document and the response\<close>

record contentXML =
  Key :: string
  StorageClass :: string
  LastModified :: string
  ETag :: string
  Size :: int

record commonPrefixXML =
  cpPrefix :: string

record listBucketResult =
  Name :: string
  Prefix :: string
  Marker :: string
  MaxKeys :: int
  IsTruncated :: bool
  Contents :: "contentXML list"
  CommonPrefixes :: "commonPrefixXML list"

text \<open>
  Modelled from the spec: the package \<open>pkg/response\<close> is not among the sources. The
  outbound representation has a status code, a header set, a content length and a
  content stream or buffer. The body records which constructor made it: nothing, a
  string, an error, an open stream, or the XML encoding of a listing (\<open>xml.Marshal\<close> of a
  struct of strings, integers and booleans does not fail, so the encoding is the struct
  itself). Header names are case-insensitive, so the header set is keyed by the
  lower-cased name; \<open>ContentLength\<close> is \<open>None\<close> until \<open>storage.go\<close> assigns it.
  \<open>SetHeader\<close> is the method \<open>Set\<close> of the response.
\<close>

datatype body =
  NoBody | BodyString string | BodyError err | BodyStream stream | BodyXML listBucketResult

record Response =
  StatusCode :: int
  Headers :: "string \<rightharpoonup> string"
  ContentLength :: "int option"
  Body :: body

definition New :: "int \<Rightarrow> stream option \<Rightarrow> Response" where
  "New sc st =
     \<lparr>StatusCode = sc, Headers = Map.empty, ContentLength = None,
      Body = (case st of None \<Rightarrow> NoBody | Some r \<Rightarrow> BodyStream r)\<rparr>"

definition NewNoContent :: "int \<Rightarrow> Response" where
  "NewNoContent sc = New sc None"

definition NewString :: "int \<Rightarrow> string \<Rightarrow> Response" where
  "NewString sc s =
     \<lparr>StatusCode = sc, Headers = Map.empty, ContentLength = None, Body = BodyString s\<rparr>"

definition NewError :: "int \<Rightarrow> err \<Rightarrow> Response" where
  "NewError sc e =
     \<lparr>StatusCode = sc, Headers = Map.empty, ContentLength = None, Body = BodyError e\<rparr>"

definition NewBuf :: "int \<Rightarrow> listBucketResult \<Rightarrow> Response" where
  "NewBuf sc r =
     \<lparr>StatusCode = sc, Headers = Map.empty, ContentLength = None, Body = BodyXML r\<rparr>"

definition SetHeader :: "string \<Rightarrow> string \<Rightarrow> Response \<Rightarrow> Response" where
  "SetHeader k v res = res\<lparr>Headers := (Headers res)(ToLower k \<mapsto> v)\<rparr>"

definition SetContentType :: "string \<Rightarrow> Response \<Rightarrow> Response" where
  "SetContentType ct res = SetHeader ''Content-Type'' ct res"

definition notFound :: string where
  "notFound = ''{\"error\":\"item not found\"}''"

section \<open>The client registry\<close>

text \<open>
  \<open>storageCache\<close> is the package-level map from configuration hash to container. The
  locks are left out: one operation is followed on its own. \<open>getClient\<close> returns the
  container or the error, and the cache after the call.
\<close>

type_synonym storageCache = "string \<rightharpoonup> stowContainer"

definition getClient ::
  "Env \<Rightarrow> storageCache \<Rightarrow> FileObject \<Rightarrow> (err + stowContainer) \<times> storageCache" where
  "getClient env cache obj =
     (let storageCfg = objStorage obj in
      case cache (Hash storageCfg) of
        Some c \<Rightarrow> (Inr c, cache)
      | None \<Rightarrow>
          (case Dial env (Kind storageCfg) storageCfg of
             Inl e \<Rightarrow> (Inl e, cache)
           | Inr client \<Rightarrow>
               (let bucketName =
                      (if Bucket storageCfg \<noteq> [] then Bucket storageCfg else objBucket obj)
                in case Container client bucketName of
                     Inl e \<Rightarrow>
                       (if e = ErrNotFound \<and> HasPrefix (Kind storageCfg) ''local'' then
                          (case CreateContainer client (objBucket obj) of
                             Inl e' \<Rightarrow> (Inl e', cache)
                           | Inr container \<Rightarrow>
                               (Inr container, cache(Hash storageCfg \<mapsto> container)))
                        else (Inl e, cache))
                   | Inr container \<Rightarrow>
                       (Inr container, cache(Hash storageCfg \<mapsto> container)))))"

section \<open>Directory detection\<close>

definition isDir :: "stowItem \<Rightarrow> panic + bool" where
  "isDir item =
     (case itemMetadata item of
        Inl e \<Rightarrow> Inr False
      | Inr metaData \<Rightarrow>
          (case map_of metaData ''is_dir'' of
             Some dir \<Rightarrow> (case dir of VBool b \<Rightarrow> Inr b | _ \<Rightarrow> Inl TypeAssertion)
           | None \<Rightarrow>
               (case map_of metaData ''content-type'' of
                  Some ct \<Rightarrow>
                    (case ct of
                       VString s \<Rightarrow> Inr (s = ''application/directory'')
                     | _ \<Rightarrow> Inl TypeAssertion)
                | None \<Rightarrow>
                    (case itemSize item of
                       (sz, Some e) \<Rightarrow> Inr False
                     | (sz, None) \<Rightarrow> Inr (sz = 0)))))"

section \<open>Metadata translation\<close>

text \<open>The type assertion \<open>v.(string)\<close> followed by \<open>res.Set(k, ...)\<close>.\<close>

definition setString :: "string \<Rightarrow> mval \<Rightarrow> Response \<Rightarrow> panic + Response" where
  "setString k v res =
     (case v of VString s \<Rightarrow> Inr (SetHeader k s res) | _ \<Rightarrow> Inl TypeAssertion)"

text \<open>Map assignment \<open>m[k] = v\<close>: the value of an existing key is replaced.\<close>

fun assign :: "string \<Rightarrow> mval \<Rightarrow> metadata \<Rightarrow> metadata" where
  "assign k v [] = [(k, v)]"
| "assign k v (p # ps) = (if fst p = k then (k, v) # ps else p # assign k v ps)"

text \<open>
  \<open>prepareMetadata\<close>: the body of the loop over the request headers, applied to the
  metadata built so far. \<open>v[0]\<close> on a header with no value is an index out of range.
\<close>

definition prepareMetadataEntry ::
  "FileObject \<Rightarrow> string \<Rightarrow> string list \<Rightarrow> metadata \<Rightarrow> panic + metadata" where
  "prepareMetadataEntry obj k v metadata =
     (let keyLower = ToLower k in
      if Kind (objStorage obj) = ''s3'' then
        (if HasPrefix keyLower ''x-amz-meta'' \<or> keyLower = ''content-type'' then
           (case v of
              [] \<Rightarrow> Inl IndexOutOfRange
            | v0 # _ \<Rightarrow>
                Inr (assign (RemoveFirst keyLower ''x-amz-meta-'') (VString v0) metadata))
         else Inr metadata)
      else
        (if HasPrefix keyLower ''x-amz-meta'' \<or> keyLower = ''content-type''
            \<or> keyLower = ''etag'' then
           (case v of
              [] \<Rightarrow> Inl IndexOutOfRange
            | v0 # _ \<Rightarrow> Inr (assign keyLower (VString v0) metadata))
         else Inr metadata))"

fun prepareMetadataLoop ::
  "FileObject \<Rightarrow> (string \<times> string list) list \<Rightarrow> metadata \<Rightarrow> panic + metadata" where
  "prepareMetadataLoop obj [] metadata = Inr metadata"
| "prepareMetadataLoop obj (h # hs) metadata =
     (case prepareMetadataEntry obj (fst h) (snd h) metadata of
        Inl p \<Rightarrow> Inl p
      | Inr metadata1 \<Rightarrow> prepareMetadataLoop obj hs metadata1)"

definition prepareMetadata ::
  "FileObject \<Rightarrow> (string \<times> string list) list \<Rightarrow> panic + metadata" where
  "prepareMetadata obj metaHeaders = prepareMetadataLoop obj metaHeaders []"

text \<open>\<open>parseMetadata\<close>: the first loop runs for every kind, the second for \<open>s3\<close> only.
  \<open>parseEntry\<close> and \<open>parseEntryS3\<close> are the loop bodies.\<close>

definition parseEntry :: "string \<Rightarrow> mval \<Rightarrow> Response \<Rightarrow> panic + Response" where
  "parseEntry k0 v res =
     (let k = ToLower k0 in
      case (if k = ''cache-control'' then setString k v res else Inr res) of
        Inl p \<Rightarrow> Inl p
      | Inr res1 \<Rightarrow> (if HasPrefix k ''x-'' then setString k v res1 else Inr res1))"

fun parseLoop :: "metadata \<Rightarrow> Response \<Rightarrow> panic + Response" where
  "parseLoop [] res = Inr res"
| "parseLoop (kv # md) res =
     (case parseEntry (fst kv) (snd kv) res of
        Inl p \<Rightarrow> Inl p
      | Inr res1 \<Rightarrow> parseLoop md res1)"

text \<open>\<open>strings.Join([]string{"x-amz-meta", k}, "-")\<close> joins with a dash.\<close>

definition JoinDash :: "string \<Rightarrow> string \<Rightarrow> string" where
  "JoinDash a b = a @ ''-'' @ b"

definition parseEntryS3 :: "string \<Rightarrow> mval \<Rightarrow> Response \<Rightarrow> panic + Response" where
  "parseEntryS3 k v res =
     (if k = ''cache-control'' \<or> k = ''content-type'' then setString k v res
      else setString (JoinDash ''x-amz-meta'' k) v res)"

fun parseLoopS3 :: "metadata \<Rightarrow> Response \<Rightarrow> panic + Response" where
  "parseLoopS3 [] res = Inr res"
| "parseLoopS3 (kv # md) res =
     (case parseEntryS3 (fst kv) (snd kv) res of
        Inl p \<Rightarrow> Inl p
      | Inr res1 \<Rightarrow> parseLoopS3 md res1)"

definition parseMetadata :: "FileObject \<Rightarrow> metadata \<Rightarrow> Response \<Rightarrow> panic + Response" where
  "parseMetadata obj metadata res =
     (case parseLoop metadata res of
        Inl p \<Rightarrow> Inl p
      | Inr res1 \<Rightarrow>
          (if Kind (objStorage obj) = ''s3'' then parseLoopS3 metadata res1 else Inr res1))"

section \<open>Object operations\<close>

text \<open>The tail of \<open>prepareResponse\<close> that settles the content type.\<close>

definition resolveContentType ::
  "Env \<Rightarrow> FileObject \<Rightarrow> stowItem \<Rightarrow> metadata \<Rightarrow> Response \<Rightarrow> panic + Response" where
  "resolveContentType env obj item metadata res =
     (case map_of metadata ''Content-Type'' of
        Some contentType \<Rightarrow>
          (case contentType of
             VString s \<Rightarrow> Inr (SetContentType s res)
           | _ \<Rightarrow> Inl TypeAssertion)
      | None \<Rightarrow>
          (case map_of metadata ''content-type'' of
             Some contentType \<Rightarrow>
               (case contentType of
                  VString s \<Rightarrow> Inr (SetContentType s res)
                | _ \<Rightarrow> Inl TypeAssertion)
           | None \<Rightarrow>
               (let ct = TypeByExtension env (Ext (objUriPath obj)) in
                if ct \<noteq> [] then Inr (SetContentType ct res)
                else
                  (case isDir item of
                     Inl p \<Rightarrow> Inl p
                   | Inr d \<Rightarrow>
                       Inr (if d then SetContentType ''application/directory'' res
                            else res)))))"

definition prepareResponse ::
  "Env \<Rightarrow> FileObject \<Rightarrow> stream option \<Rightarrow> stowItem \<Rightarrow> panic + Response" where
  "prepareResponse env obj st item =
     (let res = New 200 st in
      case itemMetadata item of
        Inl e \<Rightarrow> Inr (NewError 500 e)
      | Inr metadata \<Rightarrow>
          (case parseMetadata obj metadata res of
             Inl p \<Rightarrow> Inl p
           | Inr res1 \<Rightarrow>
               (case itemETag item of
                  (etag, Some e) \<Rightarrow> Inr (NewError 500 e)
                | (etag, None) \<Rightarrow>
                    (case itemLastMod item of
                       (lastMod, Some e) \<Rightarrow> Inr (NewError 500 e)
                     | (lastMod, None) \<Rightarrow>
                         (let res2 =
                                (case itemSize item of
                                   (sz, None) \<Rightarrow> res1\<lparr>ContentLength := Some sz\<rparr>
                                 | (sz, Some e) \<Rightarrow> res1);
                              res3 = (if etag \<noteq> [] then SetHeader ''ETag'' etag res2 else res2);
                              res4 = SetHeader ''Last-Modified'' (FormatHTTP env lastMod) res3
                          in resolveContentType env obj item metadata res4)))))"

text \<open>Each operation returns its response (or the panic that ended it) and the
  client cache after the call. Timers and log lines are left out.\<close>

definition Get ::
  "Env \<Rightarrow> storageCache \<Rightarrow> FileObject \<Rightarrow> (panic + Response) \<times> storageCache" where
  "Get env cache obj =
     (let key = getKey obj in
      case getClient env cache obj of
        (Inl e, cache1) \<Rightarrow> (Inr (NewError 503 e), cache1)
      | (Inr client, cache1) \<Rightarrow>
          (case Item client key of
             Inl e \<Rightarrow>
               (if e = ErrNotFound then (Inr (NewString 404 notFound), cache1)
                else (Inr (NewError 500 e), cache1))
           | Inr item \<Rightarrow>
               (case isDir item of
                  Inl p \<Rightarrow> (Inl p, cache1)
                | Inr d \<Rightarrow>
                    (if d = False then
                       (case itemOpen item of
                          Inl e \<Rightarrow> (Inr (NewError 500 e), cache1)
                        | Inr reader \<Rightarrow> (prepareResponse env obj (Some reader) item, cache1))
                     else (Inr (SetContentType ''application/xml'' (NewNoContent 404)),
                           cache1)))))"

definition Head ::
  "Env \<Rightarrow> storageCache \<Rightarrow> FileObject \<Rightarrow> (panic + Response) \<times> storageCache" where
  "Head env cache obj =
     (let key = getKey obj in
      case getClient env cache obj of
        (Inl e, cache1) \<Rightarrow> (Inr (NewError 503 e), cache1)
      | (Inr client, cache1) \<Rightarrow>
          (case Item client key of
             Inl e \<Rightarrow>
               (if e = ErrNotFound then (Inr (NewString 404 notFound), cache1)
                else (Inr (NewError 500 e), cache1))
           | Inr item \<Rightarrow> (prepareResponse env obj None item, cache1)))"

definition Delete ::
  "Env \<Rightarrow> storageCache \<Rightarrow> FileObject \<Rightarrow> (panic + Response) \<times> storageCache" where
  "Delete env cache obj =
     (case getClient env cache obj of
        (Inl e, cache1) \<Rightarrow> (Inr (NewError 503 e), cache1)
      | (Inr client, cache1) \<Rightarrow>
          (case Head env cache1 obj of
             (Inl p, cache2) \<Rightarrow> (Inl p, cache2)
           | (Inr resHead, cache2) \<Rightarrow>
               (if StatusCode resHead = 200 then
                  (case RemoveItem client (getKey obj) of
                     Some e \<Rightarrow> (Inr (NewError 500 e), cache2)
                   | None \<Rightarrow> (Inr resHead, cache2))
                else if StatusCode resHead = 404 then (Inr (NewNoContent 200), cache2)
                else (Inr resHead, cache2))))"

section \<open>Listing\<close>

text \<open>
  The first half of the loop body: the key of the item, the common prefix to emit
  (empty when none) and the set of common prefixes seen so far.
\<close>

definition listKey ::
  "string \<Rightarrow> stowItem \<Rightarrow> (string \<rightharpoonup> bool)
     \<Rightarrow> panic + (string \<times> string \<times> (string \<rightharpoonup> bool))" where
  "listKey prefix item commonPrefixes =
     (let filePath = Split (itemID item);
          prefixPath = Split prefix
      in if length filePath > length prefixPath then
           (let key = Join (take (length prefixPath) filePath) in
            if commonPrefixes key = None
            then Inr (key, key, commonPrefixes(key \<mapsto> True))
            else Inr (key, [], commonPrefixes))
         else
           (let key = itemName item in
            case isDir item of
              Inl p \<Rightarrow> Inl p
            | Inr d \<Rightarrow>
                (if d \<and> commonPrefixes key = None
                 then Inr (key, key, commonPrefixes(key \<mapsto> True))
                 else Inr (key, [], commonPrefixes))))"

text \<open>The whole loop body. \<open>itemID[len(itemID)-1]\<close> is an index out of range when
  the id is empty.\<close>

definition listItem ::
  "Env \<Rightarrow> string \<Rightarrow> stowItem \<Rightarrow> listBucketResult \<times> (string \<rightharpoonup> bool)
     \<Rightarrow> panic + (listBucketResult \<times> (string \<rightharpoonup> bool))" where
  "listItem env prefix item st =
     (let result = fst st;
          lastMod = fst (itemLastMod item);
          sz = fst (itemSize item);
          etag = fst (itemETag item)
      in case listKey prefix item (snd st) of
           Inl p \<Rightarrow> Inl p
         | Inr (key, commonPrefix, seen) \<Rightarrow>
             (if itemID item = [] then Inl IndexOutOfRange
              else
                (let key1 = (if last (itemID item) = sep then key @ ''/'' else key);
                     sz1 = (if last (itemID item) = sep then 0 else sz);
                     result1 =
                       (if key1 \<noteq> [] then
                          result\<lparr>Contents := Contents result @
                            [\<lparr>Key = key1, StorageClass = ''STANDARD'',
                              LastModified = FormatRFC3339 env lastMod,
                              ETag = etag, Size = sz1\<rparr>]\<rparr>
                        else result);
                     result2 =
                       (if commonPrefix \<noteq> [] then
                          result1\<lparr>CommonPrefixes := CommonPrefixes result1 @
                            [\<lparr>cpPrefix = commonPrefix @ ''/''\<rparr>]\<rparr>
                        else result1)
                 in Inr (result2, seen))))"

fun listItems ::
  "Env \<Rightarrow> string \<Rightarrow> stowItem list \<Rightarrow> listBucketResult \<times> (string \<rightharpoonup> bool)
     \<Rightarrow> panic + (listBucketResult \<times> (string \<rightharpoonup> bool))" where
  "listItems env prefix [] st = Inr st"
| "listItems env prefix (item # items) st =
     (case listItem env prefix item st of
        Inl p \<Rightarrow> Inl p
      | Inr st1 \<Rightarrow> listItems env prefix items st1)"

text \<open>\<open>ListOp\<close> is the source's \<open>List\<close>; the third argument (the delimiter) is
  ignored by the code.\<close>

definition ListOp ::
  "Env \<Rightarrow> storageCache \<Rightarrow> FileObject \<Rightarrow> int \<Rightarrow> string \<Rightarrow> string \<Rightarrow> string
     \<Rightarrow> (panic + Response) \<times> storageCache" where
  "ListOp env cache obj maxKeys delimiter prefix0 marker =
     (case getClient env cache obj of
        (Inl e, cache1) \<Rightarrow> (Inr (NewError 503 e), cache1)
      | (Inr client, cache1) \<Rightarrow>
          (let prefix = pathJoin [PathPrefix (objStorage obj), prefix0] in
           if prefix \<noteq> [] \<and> prefix \<noteq> ''/'' \<and> Kind (objStorage obj) = ''local-meta''
              \<and> Item client prefix = Inl ErrNotFound
           then (Inr (NewString 404 (objKey obj)), cache1)
           else
             (case Items client prefix marker maxKeys of
                Inl e \<Rightarrow> (Inr (NewError 500 e), cache1)
              | Inr (items, resultMarker) \<Rightarrow>
                  (case listItems env prefix items
                          (\<lparr>Name = objBucket obj, Prefix = prefix, Marker = resultMarker,
                            MaxKeys = maxKeys, IsTruncated = False,
                            Contents = [], CommonPrefixes = []\<rparr>, Map.empty) of
                     Inl p \<Rightarrow> (Inl p, cache1)
                   | Inr (result, seen) \<Rightarrow>
                       (Inr (SetContentType ''application/xml'' (NewBuf 200 result)),
                        cache1)))))"

section \<open>Observations and the statements of the spec\<close>

text \<open>What a caller observes of the outcome of an operation: the status, the body, a
  header, and the listing document if the body is one.\<close>

definition statusOf :: "panic + Response \<Rightarrow> int option" where
  "statusOf r = (case r of Inl p \<Rightarrow> None | Inr res \<Rightarrow> Some (StatusCode res))"

definition bodyOf :: "panic + Response \<Rightarrow> body option" where
  "bodyOf r = (case r of Inl p \<Rightarrow> None | Inr res \<Rightarrow> Some (Body res))"

definition headerOf :: "panic + Response \<Rightarrow> string \<Rightarrow> string option" where
  "headerOf r k = (case r of Inl p \<Rightarrow> None | Inr res \<Rightarrow> Headers res k)"

definition listingOf :: "panic + Response \<Rightarrow> listBucketResult option" where
  "listingOf r =
     (case r of
        Inl p \<Rightarrow> None
      | Inr res \<Rightarrow> (case Body res of BodyXML result \<Rightarrow> Some result | _ \<Rightarrow> None))"

text \<open>A path element as \<open>path.Clean\<close> emits it: not empty, with no separator inside.\<close>

definition elemOK :: "string \<Rightarrow> bool" where
  "elemOK e = (e \<noteq> [] \<and> sep \<notin> set e)"

text \<open>
  Inbound translation. A header is kept when its lower-cased name starts with the
  custom-metadata marker \<open>x-amz-meta\<close>, or is \<open>content-type\<close>, or, for kinds other than
  \<open>s3\<close>, is \<open>etag\<close>. It is stored under \<open>storedKey\<close>: for \<open>s3\<close> the lower-cased name
  with the first \<open>x-amz-meta-\<close> removed, for every other kind the lower-cased name.
  \<open>fromHeader\<close> says that a stored entry is the first value of a kept header.
\<close>

definition keptHeader :: "string \<Rightarrow> string \<Rightarrow> bool" where
  "keptHeader kind k =
     (HasPrefix (ToLower k) ''x-amz-meta'' \<or> ToLower k = ''content-type''
      \<or> (kind \<noteq> ''s3'' \<and> ToLower k = ''etag''))"

definition storedKey :: "string \<Rightarrow> string \<Rightarrow> string" where
  "storedKey kind k =
     (if kind = ''s3'' then RemoveFirst (ToLower k) ''x-amz-meta-'' else ToLower k)"

definition fromHeader ::
  "string \<Rightarrow> (string \<times> string list) list \<Rightarrow> string \<Rightarrow> mval \<Rightarrow> bool" where
  "fromHeader kind hs q x =
     (\<exists>h\<in>set hs. keptHeader kind (fst h) \<and> storedKey kind (fst h) = q
        \<and> snd h \<noteq> [] \<and> x = VString (hd (snd h)))"

text \<open>Storing request headers and reading the stored metadata back into a response.\<close>

definition roundTrip ::
  "FileObject \<Rightarrow> (string \<times> string list) list \<Rightarrow> Response \<Rightarrow> panic + Response" where
  "roundTrip obj metaHeaders res =
     (case prepareMetadata obj metaHeaders of
        Inl p \<Rightarrow> Inl p
      | Inr metadata \<Rightarrow> parseMetadata obj metadata res)"


text \<open>
  A response with its content stream taken away, and the same for the outcome of an
  operation: what \<open>Head\<close> is said to return in place of what \<open>Get\<close> returns. \<open>setBody\<close>
  replaces the body of an outcome.
\<close>

definition noStream :: "Response \<Rightarrow> Response" where
  "noStream res = (case Body res of BodyStream r \<Rightarrow> res\<lparr>Body := NoBody\<rparr> | _ \<Rightarrow> res)"

definition withoutStream :: "panic + Response \<Rightarrow> panic + Response" where
  "withoutStream r = (case r of Inl p \<Rightarrow> Inl p | Inr res \<Rightarrow> Inr (noStream res))"

definition setBody :: "body \<Rightarrow> panic + Response \<Rightarrow> panic + Response" where
  "setBody b r = (case r of Inl p \<Rightarrow> Inl p | Inr res \<Rightarrow> Inr (res\<lparr>Body := b\<rparr>))"

text \<open>The middle of \<open>prepareResponse\<close>: content length, ETag and modification time
  are attached to the response that carries the parsed metadata.\<close>

definition withItemHeaders :: "Env \<Rightarrow> stowItem \<Rightarrow> Response \<Rightarrow> Response" where
  "withItemHeaders env item res1 =
     (let res2 =
            (case itemSize item of
               (sz, None) \<Rightarrow> res1\<lparr>ContentLength := Some sz\<rparr>
             | (sz, Some e) \<Rightarrow> res1);
          res3 = (if fst (itemETag item) \<noteq> []
                  then SetHeader ''ETag'' (fst (itemETag item)) res2 else res2)
      in SetHeader ''Last-Modified'' (FormatHTTP env (fst (itemLastMod item))) res3)"

section \<open>Example inputs\<close>

text \<open>An object reference of a given kind, path prefix and key.\<close>

definition mkObj :: "string \<Rightarrow> string \<Rightarrow> string \<Rightarrow> FileObject" where
  "mkObj kind pathPrefix key =
     \<lparr>objBucket = ''bucket'', objKey = key, objUriPath = key,
      objStorage = \<lparr>Kind = kind, PathPrefix = pathPrefix, Hash = ''h'', Bucket = []\<rparr>\<rparr>"

text \<open>Example backends: an item with readable ETag, modification time and size; a
  container with a given lookup, listing and removal outcome, whose listing returns
  the marker \<open>next\<close>; an environment whose dial succeeds and whose location answers
  every bucket with the given outcome.\<close>

definition exItem :: "string \<Rightarrow> metadata \<Rightarrow> int \<Rightarrow> stowItem" where
  "exItem i md sz =
     \<lparr>itemID = i, itemName = i, itemMetadata = Inr md, itemETag = (''etag1'', None),
      itemLastMod = (0, None), itemSize = (sz, None), itemOpen = Inr ''data''\<rparr>"

definition exContainer ::
  "(string \<Rightarrow> err + stowItem) \<Rightarrow> stowItem list \<Rightarrow> err option \<Rightarrow> stowContainer" where
  "exContainer look items rm =
     \<lparr>Item = look, Items = (\<lambda>p m n. Inr (items, ''next'')), RemoveItem = (\<lambda>k. rm)\<rparr>"

definition exEnv :: "(err + stowContainer) \<Rightarrow> Env" where
  "exEnv c =
     \<lparr>Dial = (\<lambda>kind cfg. Inr \<lparr>Container = (\<lambda>b. c), CreateContainer = (\<lambda>b. c)\<rparr>),
      TypeByExtension = (\<lambda>e. if e = ''.txt'' then ''text/plain'' else []),
      FormatHTTP = (\<lambda>t. ''Thu, 01 Jan 1970 00:00:00 GMT''),
      FormatRFC3339 = (\<lambda>t. ''1970-01-01T00:00:00Z'')\<rparr>"

text \<open>Example environments: the container cannot be resolved; the key is absent; the
  item fetch fails; the key holds a file; the key holds a directory (size zero, no
  metadata); a file whose removal fails; a listing of the flat keys \<open>a/b\<close>, \<open>a/c\<close>,
  \<open>a/d/e\<close>; a listing that holds an item with the empty id; and a key that holds an
  item of size 7 whose metadata flags it as a directory with the bool \<open>is_dir\<close>.\<close>

definition envDown :: Env where
  "envDown = exEnv (Inl (ErrOther ''denied''))"

definition envAbsent :: Env where
  "envAbsent = exEnv (Inr (exContainer (\<lambda>k. Inl ErrNotFound) [] None))"

definition envBroken :: Env where
  "envBroken = exEnv (Inr (exContainer (\<lambda>k. Inl (ErrOther ''io'')) [] None))"

definition envFile :: Env where
  "envFile = exEnv (Inr (exContainer (\<lambda>k. Inr (exItem ''f.txt'' [] 5)) [] None))"

definition envDir :: Env where
  "envDir = exEnv (Inr (exContainer (\<lambda>k. Inr (exItem ''dir'' [] 0)) [] None))"

definition envStuck :: Env where
  "envStuck =
     exEnv (Inr (exContainer (\<lambda>k. Inr (exItem ''f.txt'' [] 5)) [] (Some (ErrOther ''io''))))"

definition envFlat :: Env where
  "envFlat =
     exEnv (Inr (exContainer (\<lambda>k. Inl ErrNotFound)
                   [exItem ''a/b'' [] 5, exItem ''a/c'' [] 5, exItem ''a/d/e'' [] 5] None))"

definition envEmptyId :: Env where
  "envEmptyId =
     exEnv (Inr (exContainer (\<lambda>k. Inl ErrNotFound) [exItem ''a/b'' [] 5, exItem [] [] 5] None))"

definition envFlagged :: Env where
  "envFlagged =
     exEnv (Inr (exContainer (\<lambda>k. Inr (exItem ''dir'' [(''is_dir'', VBool True)] 7)) [] None))"

text \<open>Request headers with a multi-value custom header.\<close>

definition exHeaders :: "(string \<times> string list) list" where
  "exHeaders =
     [(''X-Amz-Meta-Foo'', [''bar'', ''baz'']), (''Content-Type'', [''text/plain'']),
      (''ETag'', [''e1'']), (''Accept'', [''*''])]"

section \<open>Key resolution: what \<open>path.Clean\<close> returns\<close>

lemma HasSuffix_sep: "HasSuffix s ''/'' \<longleftrightarrow> s \<noteq> [] \<and> last s = sep"
proof (cases s rule: rev_cases)
  case Nil
  then show ?thesis by (simp add: HasSuffix_def)
next
  case (snoc ys y)
  then show ?thesis by (auto simp: HasSuffix_def sep_def)
qed

lemma HasPrefix_sep: "HasPrefix s ''/'' \<longleftrightarrow> s \<noteq> [] \<and> hd s = sep"
  by (cases s) (auto simp: HasPrefix_def sep_def)

lemma Split_nonempty: "Split s \<noteq> []"
  by (induction s) auto

lemma Split_no_sep: "e \<in> set (Split s) \<Longrightarrow> sep \<notin> set e"
proof (induction s arbitrary: e)
  case Nil
  then show ?case by simp
next
  case (Cons c cs)
  show ?case
  proof (cases "c = sep")
    case True
    with Cons show ?thesis by auto
  next
    case False
    obtain w ws where sp: "Split cs = w # ws"
      using Split_nonempty [of cs] by (cases "Split cs") auto
    with Cons False show ?thesis by auto
  qed
qed

lemma cleanElems_ok:
  "\<forall>e\<in>set out. elemOK e \<Longrightarrow> \<forall>e\<in>set es. sep \<notin> set e
     \<Longrightarrow> \<forall>e\<in>set (cleanElems rooted out es). elemOK e"
proof (induction es arbitrary: out)
  case Nil
  then show ?case by simp
next
  case (Cons e es)
  have rest: "\<forall>x\<in>set es. sep \<notin> set x" using Cons.prems(2) by simp
  have step: "\<forall>x\<in>set out'. elemOK x \<Longrightarrow> \<forall>x\<in>set (cleanElems rooted out' es). elemOK x"
    for out'
    using Cons.IH [of out'] rest by blast
  have keep: "\<forall>x\<in>set (cleanElems rooted out es). elemOK x"
    using step Cons.prems(1) by blast
  have pop: "\<forall>x\<in>set (cleanElems rooted (tl out) es). elemOK x"
  proof (rule step)
    show "\<forall>x\<in>set (tl out). elemOK x" using Cons.prems(1) by (cases out) auto
  qed
  have dots: "\<forall>x\<in>set (cleanElems rooted (''..'' # out) es). elemOK x"
  proof (rule step)
    show "\<forall>x\<in>set (''..'' # out). elemOK x"
      using Cons.prems(1) by (simp add: elemOK_def sep_def)
  qed
  have push: "e \<noteq> [] \<Longrightarrow> \<forall>x\<in>set (cleanElems rooted (e # out) es). elemOK x"
  proof (rule step)
    assume "e \<noteq> []"
    then show "\<forall>x\<in>set (e # out). elemOK x"
      using Cons.prems by (simp add: elemOK_def)
  qed
  show ?case
    unfolding cleanElems.simps(2) [of rooted out e es]
    using keep pop dots push by presburger
qed

lemma Join_ok:
  "\<forall>e\<in>set xs. elemOK e \<Longrightarrow> xs \<noteq> []
     \<Longrightarrow> Join xs \<noteq> [] \<and> hd (Join xs) \<noteq> sep \<and> last (Join xs) \<noteq> sep"
proof (induction xs rule: Join.induct)
  case 1
  then show ?case by simp
next
  case (2 x)
  then have x: "x \<noteq> []" "sep \<notin> set x" by (simp_all add: elemOK_def)
  have "hd x \<noteq> sep" "last x \<noteq> sep"
    using x hd_in_set [of x] last_in_set [of x] by metis+
  with x show ?case by simp
next
  case (3 x y ys)
  then have x: "x \<noteq> []" "sep \<notin> set x" by (simp_all add: elemOK_def)
  have "Join (y # ys) \<noteq> [] \<and> last (Join (y # ys)) \<noteq> sep"
    using 3 by simp
  moreover have "hd x \<noteq> sep" using x hd_in_set [of x] by metis
  ultimately show ?case using x by (cases x) auto
qed

lemma Clean_shape:
  "Clean p = ''.'' \<or> Clean p = ''/''
     \<or> (\<exists>b. b \<noteq> [] \<and> hd b \<noteq> sep \<and> last b \<noteq> sep \<and> (Clean p = b \<or> Clean p = sep # b))"
proof (cases "p = []")
  case True
  then show ?thesis by (simp add: Clean_def)
next
  case False
  define rooted where "rooted = (hd p = sep)"
  define es where "es = cleanElems rooted [] (Split p)"
  have ok: "\<forall>e\<in>set es. elemOK e"
    unfolding es_def by (rule cleanElems_ok) (auto dest: Split_no_sep)
  have cl: "Clean p = (if rooted then sep # Join es else if Join es = [] then ''.'' else Join es)"
    using False by (simp add: Clean_def rooted_def es_def Let_def)
  show ?thesis
  proof (cases "es = []")
    case True
    then show ?thesis using cl by (simp add: sep_def)
  next
    case False
    from Join_ok [OF ok False] cl show ?thesis by auto
  qed
qed

lemma Clean_no_trailing: "Clean p \<noteq> ''/'' \<Longrightarrow> \<not> HasSuffix (Clean p) ''/''"
  using Clean_shape [of p] by (auto simp: HasSuffix_sep sep_def)

lemma Clean_tl_no_leading: "\<not> HasPrefix (TrimPrefix (Clean p) ''/'') ''/''"
  using Clean_shape [of p] by (auto simp: HasPrefix_sep TrimPrefix_def sep_def)

lemma Clean_trim_no_trailing: "\<not> HasSuffix (TrimPrefix (Clean p) ''/'') ''/''"
  using Clean_shape [of p] by (auto simp: HasPrefix_sep HasSuffix_sep TrimPrefix_def sep_def)

lemma pathJoin_cases: "pathJoin es = [] \<or> (\<exists>p. pathJoin es = Clean p)"
  by (auto simp: pathJoin_def)

text \<open>
  C4, on the code. For every kind other than \<open>b2\<close> the native key is exactly
  \<open>path.Join\<close> of the path prefix and the logical key; for \<open>b2\<close>, and only for it, the
  leading separator of that join is stripped, and the result then starts with no
  separator. So far the code does what the spec says. But \<open>path.Join\<close> cleans its
  result, so for no kind does the native key end in a separator, unless it is the root
  \<open>/\<close> itself: the trailing separator of the logical key, which the spec says is kept
  and which \<open>Set\<close> tests for on the native key, is lost.
\<close>

theorem getKey_join:
  "(Kind (objStorage obj) \<noteq> ''b2'' \<longrightarrow>
      getKey obj = pathJoin [PathPrefix (objStorage obj), objKey obj])
   \<and> (Kind (objStorage obj) = ''b2'' \<longrightarrow>
      getKey obj = TrimPrefix (pathJoin [PathPrefix (objStorage obj), objKey obj]) ''/''
      \<and> \<not> HasPrefix (getKey obj) ''/'')
   \<and> (getKey obj \<noteq> ''/'' \<longrightarrow> \<not> HasSuffix (getKey obj) ''/'')"
proof -
  let ?j = "pathJoin [PathPrefix (objStorage obj), objKey obj]"
  have abc: "\<not> HasPrefix (TrimPrefix ?j ''/'') ''/'' \<and> \<not> HasSuffix (TrimPrefix ?j ''/'') ''/''
      \<and> (?j \<noteq> ''/'' \<longrightarrow> \<not> HasSuffix ?j ''/'')"
  proof (cases "?j = []")
    case True
    then show ?thesis by (simp add: HasPrefix_def HasSuffix_def TrimPrefix_def)
  next
    case False
    then obtain p where "?j = Clean p"
      using pathJoin_cases [of "[PathPrefix (objStorage obj), objKey obj]"] by auto
    then show ?thesis
      using Clean_tl_no_leading [of p] Clean_trim_no_trailing [of p] Clean_no_trailing [of p]
      by simp
  qed
  then show ?thesis by (simp add: getKey_def)
qed


theorem getKey_join_witness:
  "getKey (mkObj ''s3'' ''/a'' ''/b'') = ''/a/b'' \<and> getKey (mkObj ''b2'' ''/a'' ''/b'') = ''a/b''
   \<and> \<not> HasPrefix (getKey (mkObj ''b2'' ''/a'' ''/b'')) ''/''
   \<and> \<not> HasSuffix (getKey (mkObj ''s3'' ''/a'' ''/b'')) ''/''
   \<and> HasSuffix (objKey (mkObj ''s3'' [] ''a/'')) ''/''
   \<and> getKey (mkObj ''s3'' [] ''a/'') = ''a''
   \<and> \<not> HasSuffix (getKey (mkObj ''s3'' [] ''a/'')) ''/''"
proof -
  have j: "pathJoin [''/a'', ''/b''] = ''/a/b''"
    by (simp add: pathJoin_def joinStep_def Clean_def sep_def)
  have t: "TrimPrefix ''/a/b'' ''/'' = ''a/b''"
    by (simp add: TrimPrefix_def HasPrefix_def)
  have s3: "getKey (mkObj ''s3'' ''/a'' ''/b'') = ''/a/b''
      \<and> \<not> HasSuffix (getKey (mkObj ''s3'' ''/a'' ''/b'')) ''/''"
    using getKey_join [of "mkObj ''s3'' ''/a'' ''/b''"] j by (simp add: mkObj_def HasSuffix_def)
  have b2: "getKey (mkObj ''b2'' ''/a'' ''/b'') = ''a/b''
      \<and> \<not> HasPrefix (getKey (mkObj ''b2'' ''/a'' ''/b'')) ''/''"
    using getKey_join [of "mkObj ''b2'' ''/a'' ''/b''"] j t by (simp add: mkObj_def HasPrefix_def)
  have k: "Kind (objStorage (mkObj ''s3'' [] ''a/'')) \<noteq> ''b2''"
    by (simp add: mkObj_def)
  have ja: "pathJoin [PathPrefix (objStorage (mkObj ''s3'' [] ''a/'')), objKey (mkObj ''s3'' [] ''a/'')]
      = ''a''"
    by (simp add: mkObj_def pathJoin_def joinStep_def Clean_def sep_def)
  have lost: "getKey (mkObj ''s3'' [] ''a/'') = ''a''"
    using getKey_join [of "mkObj ''s3'' [] ''a/''", THEN conjunct1, THEN mp, OF k] ja by simp
  have "''a'' \<noteq> ''/''" by simp
  then have "getKey (mkObj ''s3'' [] ''a/'') \<noteq> ''/''" using lost by simp
  then have nosep: "\<not> HasSuffix (getKey (mkObj ''s3'' [] ''a/'')) ''/''"
    by (rule getKey_join [of "mkObj ''s3'' [] ''a/''", THEN conjunct2, THEN conjunct2, THEN mp])
  have had: "HasSuffix (objKey (mkObj ''s3'' [] ''a/'')) ''/''"
    by (simp add: mkObj_def HasSuffix_def)
  show ?thesis using s3 b2 had lost nosep by blast
qed

section \<open>Inbound metadata translation\<close>

lemmas lower_defs = ToLower_def toLowerChar_def lowerTable_def

lemma prepareMetadataEntry_eq:
  "prepareMetadataEntry obj k v md =
     (if keptHeader (Kind (objStorage obj)) k then
        (case v of
           [] \<Rightarrow> Inl IndexOutOfRange
         | v0 # vs \<Rightarrow> Inr (assign (storedKey (Kind (objStorage obj)) k) (VString v0) md))
      else Inr md)"
  by (cases v) (simp_all add: prepareMetadataEntry_def keptHeader_def storedKey_def Let_def)

lemma set_assign: "set (assign k v md) \<subseteq> insert (k, v) (set md)"
  by (induction md) auto

lemma keys_assign: "fst ` set (assign k v md) = insert k (fst ` set md)"
  by (induction md) auto

lemma distinct_assign: "distinct (map fst md) \<Longrightarrow> distinct (map fst (assign k v md))"
proof (induction md)
  case Nil
  then show ?case by simp
next
  case (Cons p ps)
  have "fst ` set (assign k v ps) = insert k (fst ` set ps)" by (rule keys_assign)
  with Cons show ?case by auto
qed

lemma RemoveFirst_at_start: "HasPrefix s old \<Longrightarrow> s \<noteq> [] \<Longrightarrow> RemoveFirst s old = drop (length old) s"
  by (cases s) auto

lemma fromHeader_Cons: "fromHeader kind hs q x \<Longrightarrow> fromHeader kind (h # hs) q x"
  by (auto simp: fromHeader_def)

lemma fromHeader_here:
  "keptHeader kind k \<Longrightarrow> fromHeader kind ((k, v0 # vs) # hs) (storedKey kind k) (VString v0)"
  by (auto simp: fromHeader_def)

lemma prepareMetadataLoop_result:
  "prepareMetadataLoop obj hs md0 = Inr md \<Longrightarrow>
     fst ` set md = fst ` set md0
        \<union> storedKey (Kind (objStorage obj)) ` {k \<in> fst ` set hs. keptHeader (Kind (objStorage obj)) k}
     \<and> (\<forall>q x. (q, x) \<in> set md \<longrightarrow>
           (q, x) \<in> set md0 \<or> fromHeader (Kind (objStorage obj)) hs q x)
     \<and> (distinct (map fst md0) \<longrightarrow> distinct (map fst md))"
proof (induction hs arbitrary: md0)
  case Nil
  then show ?case by simp
next
  case (Cons h hs)
  obtain k v where h: "h = (k, v)" by (cases h)
  let ?kind = "Kind (objStorage obj)"
  show ?case
  proof (cases "keptHeader ?kind k")
    case False
    then have "prepareMetadataLoop obj hs md0 = Inr md"
      using Cons.prems h by (simp add: prepareMetadataEntry_eq)
    note ih = Cons.IH [OF this]
    have c1: "fst ` set md = fst ` set md0
        \<union> storedKey ?kind ` {k' \<in> fst ` set (h # hs). keptHeader ?kind k'}"
      using ih False h by auto
    have c2: "\<forall>q x. (q, x) \<in> set md \<longrightarrow> (q, x) \<in> set md0 \<or> fromHeader ?kind (h # hs) q x"
      using ih fromHeader_Cons by blast
    have c3: "distinct (map fst md0) \<longrightarrow> distinct (map fst md)"
      using ih by blast
    show ?thesis using c1 c2 c3 by blast
  next
    case True
    then obtain v0 vs where v: "v = v0 # vs"
      using Cons.prems h by (cases v) (simp_all add: prepareMetadataEntry_eq)
    let ?md1 = "assign (storedKey ?kind k) (VString v0) md0"
    have "prepareMetadataLoop obj hs ?md1 = Inr md"
      using Cons.prems h v True by (simp add: prepareMetadataEntry_eq)
    note ih = Cons.IH [OF this]
    have keys: "fst ` set ?md1 = insert (storedKey ?kind k) (fst ` set md0)"
      by (rule keys_assign)
    have sub: "set ?md1 \<subseteq> insert (storedKey ?kind k, VString v0) (set md0)"
      by (rule set_assign)
    have d: "distinct (map fst md0) \<Longrightarrow> distinct (map fst ?md1)"
      by (rule distinct_assign)
    have here: "fromHeader ?kind (h # hs) (storedKey ?kind k) (VString v0)"
      using True h v fromHeader_here by simp
    have c1: "fst ` set md = fst ` set md0
        \<union> storedKey ?kind ` {k' \<in> fst ` set (h # hs). keptHeader ?kind k'}"
      using ih keys True h by auto
    have c2: "\<forall>q x. (q, x) \<in> set md \<longrightarrow> (q, x) \<in> set md0 \<or> fromHeader ?kind (h # hs) q x"
    proof (intro allI impI)
      fix q x
      assume "(q, x) \<in> set md"
      with ih have "(q, x) \<in> set ?md1 \<or> fromHeader ?kind hs q x" by blast
      then show "(q, x) \<in> set md0 \<or> fromHeader ?kind (h # hs) q x"
      proof
        assume "(q, x) \<in> set ?md1"
        with sub have "(q, x) = (storedKey ?kind k, VString v0) \<or> (q, x) \<in> set md0" by auto
        then show ?thesis using here by auto
      next
        assume "fromHeader ?kind hs q x"
        then show ?thesis using fromHeader_Cons by blast
      qed
    qed
    have c3: "distinct (map fst md0) \<longrightarrow> distinct (map fst md)"
      using ih d by blast
    show ?thesis using c1 c2 c3 by blast
  qed
qed

lemma prepareMetadataLoop_panic:
  "(\<exists>md. prepareMetadataLoop obj hs md0 = Inr md)
     \<longleftrightarrow> (\<forall>k v. (k, v) \<in> set hs \<and> keptHeader (Kind (objStorage obj)) k \<longrightarrow> v \<noteq> [])"
proof (induction hs arbitrary: md0)
  case Nil
  then show ?case by simp
next
  case (Cons h hs)
  obtain k v where h: "h = (k, v)" by (cases h)
  show ?case
  proof (cases "keptHeader (Kind (objStorage obj)) k")
    case False
    then show ?thesis using Cons.IH [of md0] h by (auto simp: prepareMetadataEntry_eq)
  next
    case True
    show ?thesis
    proof (cases v)
      case Nil
      then show ?thesis using True h by (auto simp: prepareMetadataEntry_eq)
    next
      case (Cons v0 vs)
      then show ?thesis
        using True h Cons.IH [of "assign (storedKey (Kind (objStorage obj)) k) (VString v0) md0"]
        by (auto simp: prepareMetadataEntry_eq)
    qed
  qed
qed

lemma prepareMetadataLoop_Inl:
  "prepareMetadataLoop obj hs md0 = Inl p \<Longrightarrow> p = IndexOutOfRange"
proof (induction hs arbitrary: md0)
  case Nil
  then show ?case by simp
next
  case (Cons h hs)
  then show ?case
    by (cases "snd h") (auto simp: prepareMetadataEntry_eq split: if_splits)
qed

text \<open>
  C5, as the code has it. For every kind and every header list: the stored keys are
  exactly the stored names of the kept headers; every stored entry is the first value
  of a kept header; the translation succeeds unless a kept header has no value, and
  then it panics with an index out of range. For \<open>s3\<close> a name that starts with
  \<open>x-amz-meta-\<close> is stored without that prefix; for every other kind the stored key is
  the lower-cased name, prefix included.
\<close>

theorem prepareMetadata_translation:
  "(\<forall>md. prepareMetadata obj hs = Inr md \<longrightarrow>
      fst ` set md = storedKey (Kind (objStorage obj)) `
                       {k \<in> fst ` set hs. keptHeader (Kind (objStorage obj)) k}
      \<and> (\<forall>q x. (q, x) \<in> set md \<longrightarrow> fromHeader (Kind (objStorage obj)) hs q x)
      \<and> distinct (map fst md))
   \<and> ((\<exists>md. prepareMetadata obj hs = Inr md)
        \<longleftrightarrow> (\<forall>h\<in>set hs. keptHeader (Kind (objStorage obj)) (fst h) \<longrightarrow> snd h \<noteq> []))
   \<and> (\<forall>p. prepareMetadata obj hs = Inl p \<longrightarrow> p = IndexOutOfRange)
   \<and> (\<forall>k. HasPrefix (ToLower k) ''x-amz-meta-'' \<longrightarrow>
         storedKey ''s3'' k = drop (length ''x-amz-meta-'') (ToLower k))
   \<and> (\<forall>k kind. kind \<noteq> ''s3'' \<longrightarrow> storedKey kind k = ToLower k)"
proof -
  have a: "\<forall>md. prepareMetadata obj hs = Inr md \<longrightarrow>
      fst ` set md = storedKey (Kind (objStorage obj)) `
                       {k \<in> fst ` set hs. keptHeader (Kind (objStorage obj)) k}
      \<and> (\<forall>q x. (q, x) \<in> set md \<longrightarrow> fromHeader (Kind (objStorage obj)) hs q x)
      \<and> distinct (map fst md)"
    using prepareMetadataLoop_result [of obj hs "[]"] by (simp add: prepareMetadata_def)
  have b: "(\<exists>md. prepareMetadata obj hs = Inr md)
        \<longleftrightarrow> (\<forall>h\<in>set hs. keptHeader (Kind (objStorage obj)) (fst h) \<longrightarrow> snd h \<noteq> [])"
    using prepareMetadataLoop_panic [of obj hs "[]"] by (auto simp: prepareMetadata_def)
  have c: "\<forall>p. prepareMetadata obj hs = Inl p \<longrightarrow> p = IndexOutOfRange"
    using prepareMetadataLoop_Inl [of obj hs "[]"] by (simp add: prepareMetadata_def)
  have d: "\<forall>k. HasPrefix (ToLower k) ''x-amz-meta-'' \<longrightarrow>
         storedKey ''s3'' k = drop (length ''x-amz-meta-'') (ToLower k)"
  proof (intro allI impI)
    fix k
    assume h: "HasPrefix (ToLower k) ''x-amz-meta-''"
    then have "ToLower k \<noteq> []" by (auto simp: HasPrefix_def)
    with h show "storedKey ''s3'' k = drop (length ''x-amz-meta-'') (ToLower k)"
      unfolding storedKey_def using RemoveFirst_at_start [of "ToLower k" "''x-amz-meta-''"]
      by simp
  qed
  have e: "\<forall>k kind. kind \<noteq> ''s3'' \<longrightarrow> storedKey kind k = ToLower k"
    by (simp add: storedKey_def)
  show ?thesis using a b c d e by blast
qed

theorem prepareMetadata_translation_witness:
  "prepareMetadata (mkObj ''s3'' [] ''k'') exHeaders
     = Inr [(''foo'', VString ''bar''), (''content-type'', VString ''text/plain'')]
   \<and> fst ` set [(''foo'', VString ''bar''), (''content-type'', VString ''text/plain'')]
     = storedKey ''s3'' ` {k \<in> fst ` set exHeaders. keptHeader ''s3'' k}
   \<and> storedKey ''s3'' ''X-Amz-Meta-Foo'' = ''foo''
   \<and> storedKey ''local'' ''X-Amz-Meta-Foo'' = ''x-amz-meta-foo''
   \<and> prepareMetadata (mkObj ''s3'' [] ''k'') [(''Content-Type'', [])] = Inl IndexOutOfRange"
proof -
  note t = prepareMetadata_translation [of "mkObj ''s3'' [] ''k''" exHeaders]
  have k: "Kind (objStorage (mkObj ''s3'' [] ''k'')) = ''s3''"
    by (simp add: mkObj_def)
  have ev: "prepareMetadata (mkObj ''s3'' [] ''k'') exHeaders
      = Inr [(''foo'', VString ''bar''), (''content-type'', VString ''text/plain'')]"
    by (simp add: prepareMetadata_def prepareMetadataEntry_def exHeaders_def mkObj_def
          lower_defs HasPrefix_def)
  note t1 = t [THEN conjunct1, rule_format, OF ev, THEN conjunct1]
  note t4 = t [THEN conjunct2, THEN conjunct2, THEN conjunct2, THEN conjunct1, rule_format]
  note t5 = t [THEN conjunct2, THEN conjunct2, THEN conjunct2, THEN conjunct2, rule_format]
  have keys: "fst ` set [(''foo'', VString ''bar''), (''content-type'', VString ''text/plain'')]
      = storedKey ''s3'' ` {k \<in> fst ` set exHeaders. keptHeader ''s3'' k}"
    using t1 k by simp
  have low: "ToLower ''X-Amz-Meta-Foo'' = ''x-amz-meta-foo''"
    by (simp add: lower_defs)
  have "HasPrefix (ToLower ''X-Amz-Meta-Foo'') ''x-amz-meta-''"
    by (simp add: low HasPrefix_def)
  then have "storedKey ''s3'' ''X-Amz-Meta-Foo''
      = drop (length ''x-amz-meta-'') (ToLower ''X-Amz-Meta-Foo'')"
    by (rule t4)
  then have s3: "storedKey ''s3'' ''X-Amz-Meta-Foo'' = ''foo''"
    by (simp add: low)
  have "''local'' \<noteq> ''s3''" by simp
  then have "storedKey ''local'' ''X-Amz-Meta-Foo'' = ToLower ''X-Amz-Meta-Foo''"
    by (rule t5)
  then have loc: "storedKey ''local'' ''X-Amz-Meta-Foo'' = ''x-amz-meta-foo''"
    by (simp add: low)
  note u = prepareMetadata_translation [of "mkObj ''s3'' [] ''k''" "[(''Content-Type'', [])]"]
  have "\<not> (\<forall>h\<in>set [(''Content-Type'', [])].
           keptHeader (Kind (objStorage (mkObj ''s3'' [] ''k''))) (fst h) \<longrightarrow> snd h \<noteq> [])"
    by (simp add: k keptHeader_def lower_defs)
  with u [THEN conjunct2, THEN conjunct1]
  have "\<nexists>md. prepareMetadata (mkObj ''s3'' [] ''k'') [(''Content-Type'', [])] = Inr md"
    by simp
  then obtain p where "prepareMetadata (mkObj ''s3'' [] ''k'') [(''Content-Type'', [])] = Inl p"
    by (cases "prepareMetadata (mkObj ''s3'' [] ''k'') [(''Content-Type'', [])]") auto
  with u [THEN conjunct2, THEN conjunct2, THEN conjunct1, rule_format, of p]
  have pan: "prepareMetadata (mkObj ''s3'' [] ''k'') [(''Content-Type'', [])] = Inl IndexOutOfRange"
    by simp
  show ?thesis by (rule conjI [OF ev conjI [OF keys conjI [OF s3 conjI [OF loc pan]]]])
qed

text \<open>
  C5, as the spec states it, fails for a kind other than \<open>s3\<close>: for the kind \<open>local\<close>
  the header \<open>x-amz-meta-foo\<close> is stored under its full name, not as \<open>foo\<close>.
\<close>

theorem prepareMetadata_prefix_kept_counterexample:
  "prepareMetadata (mkObj ''local'' [] ''k'') [(''x-amz-meta-foo'', [''bar''])]
     = Inr [(''x-amz-meta-foo'', VString ''bar'')]
   \<and> map_of [(''x-amz-meta-foo'', VString ''bar'')] ''foo'' = None"
  by (simp add: prepareMetadata_def prepareMetadataEntry_def mkObj_def lower_defs HasPrefix_def)

section \<open>The metadata round trip for the \<open>s3\<close> kind\<close>

text \<open>
  C7. For an \<open>s3\<close> object and any response to start from: storing the request header
  \<open>x-amz-meta-color: red\<close> and reading the stored metadata back sets the response header
  \<open>x-amz-meta-color\<close> to \<open>red\<close> and changes no other header; storing
  \<open>Content-Type: text/plain\<close> and reading it back sets the header \<open>content-type\<close> to
  \<open>text/plain\<close>, with no custom-metadata prefix, and changes no other header.
\<close>

theorem s3_metadata_roundtrip:
  assumes "Kind (objStorage obj) = ''s3''"
  shows "(\<exists>res'. roundTrip obj [(''x-amz-meta-color'', [''red''])] res = Inr res'
            \<and> Headers res' = (Headers res)(''x-amz-meta-color'' \<mapsto> ''red''))
       \<and> (\<exists>res'. roundTrip obj [(''Content-Type'', [''text/plain''])] res = Inr res'
            \<and> Headers res' = (Headers res)(''content-type'' \<mapsto> ''text/plain''))"
proof -
  have p1: "prepareMetadata obj [(''x-amz-meta-color'', [''red''])] = Inr [(''color'', VString ''red'')]"
    using assms by (simp add: prepareMetadata_def prepareMetadataEntry_def lower_defs HasPrefix_def)
  have q1: "parseMetadata obj [(''color'', VString ''red'')] res
      = Inr (res\<lparr>Headers := (Headers res)(''x-amz-meta-color'' \<mapsto> ''red'')\<rparr>)"
    using assms by (simp add: parseMetadata_def parseEntry_def parseEntryS3_def setString_def
        SetHeader_def JoinDash_def lower_defs HasPrefix_def)
  have p2: "prepareMetadata obj [(''Content-Type'', [''text/plain''])]
      = Inr [(''content-type'', VString ''text/plain'')]"
    using assms by (simp add: prepareMetadata_def prepareMetadataEntry_def lower_defs HasPrefix_def)
  have q2: "parseMetadata obj [(''content-type'', VString ''text/plain'')] res
      = Inr (res\<lparr>Headers := (Headers res)(''content-type'' \<mapsto> ''text/plain'')\<rparr>)"
    using assms by (simp add: parseMetadata_def parseEntry_def parseEntryS3_def setString_def
        SetHeader_def JoinDash_def lower_defs HasPrefix_def)
  show ?thesis using p1 q1 p2 q2 by (simp add: roundTrip_def)
qed


theorem s3_metadata_roundtrip_witness:
  "Kind (objStorage (mkObj ''s3'' [] ''k'')) = ''s3''
   \<and> headerOf (roundTrip (mkObj ''s3'' [] ''k'') [(''x-amz-meta-color'', [''red''])]
         (New 200 None)) ''x-amz-meta-color'' = Some ''red''
   \<and> headerOf (roundTrip (mkObj ''s3'' [] ''k'') [(''Content-Type'', [''text/plain''])]
         (New 200 None)) ''content-type'' = Some ''text/plain''
   \<and> headerOf (roundTrip (mkObj ''s3'' [] ''k'') [(''Content-Type'', [''text/plain''])]
         (New 200 None)) ''x-amz-meta-content-type'' = None"
proof -
  have k: "Kind (objStorage (mkObj ''s3'' [] ''k'')) = ''s3''"
    by (simp add: mkObj_def)
  note t = s3_metadata_roundtrip [OF k, of "New 200 None"]
  from t obtain r1 where r1:
    "roundTrip (mkObj ''s3'' [] ''k'') [(''x-amz-meta-color'', [''red''])] (New 200 None) = Inr r1"
    "Headers r1 = (Headers (New 200 None))(''x-amz-meta-color'' \<mapsto> ''red'')"
    by blast
  from t obtain r2 where r2:
    "roundTrip (mkObj ''s3'' [] ''k'') [(''Content-Type'', [''text/plain''])] (New 200 None) = Inr r2"
    "Headers r2 = (Headers (New 200 None))(''content-type'' \<mapsto> ''text/plain'')"
    by blast
  show ?thesis using k r1 r2 by (simp add: headerOf_def New_def)
qed

section \<open>The content type of a read response\<close>

lemma lower_consts:
  "ToLower ''Content-Type'' = ''content-type''"
  "ToLower ''ETag'' = ''etag''"
  "ToLower ''Last-Modified'' = ''last-modified''"
  "ToLower ''cache-control'' = ''cache-control''"
  "ToLower ''content-type'' = ''content-type''"
  by (simp_all add: lower_defs)














section \<open>What the metadata steps leave untouched\<close>

lemma setString_body: "setString k v (res\<lparr>Body := b\<rparr>) = setBody b (setString k v res)"
  by (cases v) (simp_all add: setString_def setBody_def SetHeader_def)

lemma setString_keeps:
  "setString k v res = Inr res' \<Longrightarrow> Body res' = Body res \<and> StatusCode res' = StatusCode res"
  by (cases v) (auto simp: setString_def SetHeader_def)

lemma parseEntry_body: "parseEntry k v (res\<lparr>Body := b\<rparr>) = setBody b (parseEntry k v res)"
  by (auto simp: parseEntry_def Let_def setString_body setBody_def split: sum.splits)

lemma parseEntry_keeps:
  assumes "parseEntry k0 v res = Inr res'"
  shows "Body res' = Body res \<and> StatusCode res' = StatusCode res"
proof -
  let ?k = "ToLower k0"
  obtain res1 where r1: "(if ?k = ''cache-control'' then setString ?k v res else Inr res) = Inr res1"
    and r2: "(if HasPrefix ?k ''x-'' then setString ?k v res1 else Inr res1) = Inr res'"
    using assms by (auto simp: parseEntry_def Let_def split: sum.splits)
  have a: "Body res1 = Body res \<and> StatusCode res1 = StatusCode res"
    using r1 setString_keeps [of ?k v res res1] by (auto split: if_splits)
  have b: "Body res' = Body res1 \<and> StatusCode res' = StatusCode res1"
    using r2 setString_keeps [of ?k v res1 res'] by (auto split: if_splits)
  show ?thesis using a b by simp
qed

lemma parseLoop_body: "parseLoop md (res\<lparr>Body := b\<rparr>) = setBody b (parseLoop md res)"
proof (induction md arbitrary: res)
  case Nil
  then show ?case by (simp add: setBody_def)
next
  case (Cons kv md)
  show ?case
  proof (cases "parseEntry (fst kv) (snd kv) res")
    case (Inl p)
    then show ?thesis by (simp add: parseEntry_body setBody_def)
  next
    case (Inr res1)
    then show ?thesis using Cons.IH [of res1] by (simp add: parseEntry_body setBody_def)
  qed
qed

lemma parseLoop_keeps:
  "parseLoop md res = Inr res' \<Longrightarrow> Body res' = Body res \<and> StatusCode res' = StatusCode res"
proof (induction md arbitrary: res)
  case Nil
  then show ?case by simp
next
  case (Cons kv md)
  then obtain res1 where e: "parseEntry (fst kv) (snd kv) res = Inr res1"
    and l: "parseLoop md res1 = Inr res'"
    by (auto split: sum.splits)
  show ?case using Cons.IH [OF l] parseEntry_keeps [OF e] by simp
qed

lemma parseEntryS3_body:
  "parseEntryS3 k v (res\<lparr>Body := b\<rparr>) = setBody b (parseEntryS3 k v res)"
  by (simp add: parseEntryS3_def setString_body)

lemma parseEntryS3_keeps:
  "parseEntryS3 k v res = Inr res' \<Longrightarrow> Body res' = Body res \<and> StatusCode res' = StatusCode res"
  by (auto simp: parseEntryS3_def split: if_splits dest: setString_keeps)

lemma parseLoopS3_body: "parseLoopS3 md (res\<lparr>Body := b\<rparr>) = setBody b (parseLoopS3 md res)"
proof (induction md arbitrary: res)
  case Nil
  then show ?case by (simp add: setBody_def)
next
  case (Cons kv md)
  show ?case
  proof (cases "parseEntryS3 (fst kv) (snd kv) res")
    case (Inl p)
    then show ?thesis by (simp add: parseEntryS3_body setBody_def)
  next
    case (Inr res1)
    then show ?thesis using Cons.IH [of res1] by (simp add: parseEntryS3_body setBody_def)
  qed
qed

lemma parseLoopS3_keeps:
  "parseLoopS3 md res = Inr res' \<Longrightarrow> Body res' = Body res \<and> StatusCode res' = StatusCode res"
proof (induction md arbitrary: res)
  case Nil
  then show ?case by simp
next
  case (Cons kv md)
  then obtain res1 where e: "parseEntryS3 (fst kv) (snd kv) res = Inr res1"
    and l: "parseLoopS3 md res1 = Inr res'"
    by (auto split: sum.splits)
  show ?case using Cons.IH [OF l] parseEntryS3_keeps [OF e] by simp
qed

lemma parseMetadata_body:
  "parseMetadata obj md (res\<lparr>Body := b\<rparr>) = setBody b (parseMetadata obj md res)"
  by (cases "parseLoop md res")
    (simp_all add: parseMetadata_def parseLoop_body parseLoopS3_body setBody_def)

lemma parseMetadata_keeps:
  assumes "parseMetadata obj md res = Inr res'"
  shows "Body res' = Body res \<and> StatusCode res' = StatusCode res"
proof -
  obtain res1 where l1: "parseLoop md res = Inr res1"
    and l2: "(if Kind (objStorage obj) = ''s3'' then parseLoopS3 md res1 else Inr res1) = Inr res'"
    using assms by (auto simp: parseMetadata_def split: sum.splits)
  have "Body res' = Body res1 \<and> StatusCode res' = StatusCode res1"
    using l2 parseLoopS3_keeps [of md res1 res'] by (auto split: if_splits)
  then show ?thesis using parseLoop_keeps [OF l1] by simp
qed

lemma resolveContentType_body:
  "resolveContentType env obj item md (res\<lparr>Body := b\<rparr>)
     = setBody b (resolveContentType env obj item md res)"
  by (auto simp: resolveContentType_def setBody_def SetContentType_def SetHeader_def Let_def
      split: option.splits mval.splits sum.splits)

lemma resolveContentType_keeps:
  "resolveContentType env obj item md res = Inr res'
     \<Longrightarrow> Body res' = Body res \<and> StatusCode res' = StatusCode res"
  by (auto simp: resolveContentType_def SetContentType_def SetHeader_def Let_def
      split: option.splits mval.splits sum.splits if_splits)

lemma withItemHeaders_body:
  "withItemHeaders env item (res\<lparr>Body := b\<rparr>) = (withItemHeaders env item res)\<lparr>Body := b\<rparr>"
  by (cases "itemSize item"; cases "snd (itemSize item)")
    (simp_all add: withItemHeaders_def SetHeader_def Let_def)

lemma withItemHeaders_keeps:
  "Body (withItemHeaders env item res) = Body res
   \<and> StatusCode (withItemHeaders env item res) = StatusCode res"
  by (cases "itemSize item"; cases "snd (itemSize item)")
    (simp_all add: withItemHeaders_def SetHeader_def Let_def)

text \<open>\<open>prepareResponse\<close> in four cases: unreadable metadata, a panic while the
  metadata is parsed, an unreadable ETag or modification time, and the rest, where
  the content type is settled on the response built so far.\<close>

lemma prepareResponse_cases:
  "prepareResponse env obj st item =
     (case itemMetadata item of
        Inl e \<Rightarrow> Inr (NewError 500 e)
      | Inr md \<Rightarrow>
          (case parseMetadata obj md (New 200 st) of
             Inl p \<Rightarrow> Inl p
           | Inr res1 \<Rightarrow>
               (case snd (itemETag item) of
                  Some e \<Rightarrow> Inr (NewError 500 e)
                | None \<Rightarrow>
                    (case snd (itemLastMod item) of
                       Some e \<Rightarrow> Inr (NewError 500 e)
                     | None \<Rightarrow>
                         resolveContentType env obj item md (withItemHeaders env item res1)))))"
  by (cases "itemETag item"; cases "itemLastMod item")
    (simp add: prepareResponse_def withItemHeaders_def Let_def split: sum.splits option.splits)

lemma prepareResponse_status:
  assumes "prepareResponse env obj st item = Inr res"
  shows "StatusCode res = 200 \<or> StatusCode res = 500"
proof -
  have e500: "StatusCode (NewError 500 e) = 500" for e by (simp add: NewError_def)
  show ?thesis
  proof (cases "itemMetadata item")
    case (Inl e)
    then show ?thesis using assms e500 by (auto simp: prepareResponse_cases)
  next
    case md: (Inr md)
    then obtain res1 where p: "parseMetadata obj md (New 200 st) = Inr res1"
      using assms by (cases "parseMetadata obj md (New 200 st)") (simp_all add: prepareResponse_cases)
    have s1: "StatusCode res1 = 200"
      using parseMetadata_keeps [OF p] by (simp add: New_def)
    show ?thesis
    proof (cases "snd (itemETag item) = None \<and> snd (itemLastMod item) = None")
      case True
      then have "resolveContentType env obj item md (withItemHeaders env item res1) = Inr res"
        using assms md p by (simp add: prepareResponse_cases)
      then have "StatusCode res = StatusCode (withItemHeaders env item res1)"
        using resolveContentType_keeps by blast
      then show ?thesis using s1 withItemHeaders_keeps [of env item res1] by simp
    next
      case False
      then show ?thesis
        using assms md p e500 by (auto simp: prepareResponse_cases split: option.splits)
    qed
  qed
qed

lemma prepareResponse_without_stream:
  "prepareResponse env obj None item = withoutStream (prepareResponse env obj (Some r) item)"
proof -
  have new: "New 200 None = (New 200 (Some r))\<lparr>Body := NoBody\<rparr>"
    by (simp add: New_def)
  have err: "noStream (NewError 500 e) = NewError 500 e" for e
    by (simp add: noStream_def NewError_def)
  show ?thesis
  proof (cases "itemMetadata item")
    case (Inl e)
    then show ?thesis by (simp add: prepareResponse_cases withoutStream_def err)
  next
    case md: (Inr md)
    show ?thesis
    proof (cases "parseMetadata obj md (New 200 (Some r))")
      case (Inl p)
      then show ?thesis
        using md by (simp add: prepareResponse_cases withoutStream_def new parseMetadata_body setBody_def)
    next
      case (Inr res1)
      have p: "parseMetadata obj md (New 200 None) = Inr (res1\<lparr>Body := NoBody\<rparr>)"
        using Inr by (simp add: new parseMetadata_body setBody_def)
      have b1: "Body res1 = BodyStream r"
        using parseMetadata_keeps [OF Inr] by (simp add: New_def)
      define x where "x = withItemHeaders env item res1"
      have bx: "Body x = BodyStream r"
        using b1 withItemHeaders_keeps [of env item res1] by (simp add: x_def)
      have xn: "withItemHeaders env item (res1\<lparr>Body := NoBody\<rparr>) = x\<lparr>Body := NoBody\<rparr>"
        by (simp add: x_def withItemHeaders_body)
      have tail: "resolveContentType env obj item md (x\<lparr>Body := NoBody\<rparr>)
          = withoutStream (resolveContentType env obj item md x)"
      proof (cases "resolveContentType env obj item md x")
        case (Inl q)
        then show ?thesis by (simp add: resolveContentType_body setBody_def withoutStream_def)
      next
        case (Inr res)
        have "Body res = BodyStream r"
          using resolveContentType_keeps [OF Inr] bx by simp
        then have "noStream res = res\<lparr>Body := NoBody\<rparr>" by (simp add: noStream_def)
        then show ?thesis
          using Inr by (simp add: resolveContentType_body setBody_def withoutStream_def)
      qed
      have lhs: "prepareResponse env obj None item =
          (case snd (itemETag item) of
             Some e \<Rightarrow> Inr (NewError 500 e)
           | None \<Rightarrow>
               (case snd (itemLastMod item) of
                  Some e \<Rightarrow> Inr (NewError 500 e)
                | None \<Rightarrow> resolveContentType env obj item md (x\<lparr>Body := NoBody\<rparr>)))"
        using md p xn by (simp add: prepareResponse_cases split: option.splits)
      have rhs: "prepareResponse env obj (Some r) item =
          (case snd (itemETag item) of
             Some e \<Rightarrow> Inr (NewError 500 e)
           | None \<Rightarrow>
               (case snd (itemLastMod item) of
                  Some e \<Rightarrow> Inr (NewError 500 e)
                | None \<Rightarrow> resolveContentType env obj item md x))"
        using md Inr by (simp add: prepareResponse_cases x_def split: option.splits)
      show ?thesis
        unfolding lhs rhs tail
        by (simp add: withoutStream_def err split: option.splits)
    qed
  qed
qed

section \<open>Get\<close>

lemmas response_defs =
  New_def NewNoContent_def NewString_def NewError_def NewBuf_def SetContentType_def
  SetHeader_def

lemmas observer_defs = statusOf_def bodyOf_def headerOf_def

lemmas example_defs =
  exEnv_def exContainer_def exItem_def mkObj_def envDown_def envAbsent_def envBroken_def
  envFile_def envDir_def envStuck_def

text \<open>
  C8. \<open>Get\<close> maps errors as follows: when the client cannot be resolved it returns 503;
  when the item fetch reports not-found it returns 404 with the body
  \<open>{"error":"item not found"}\<close>; on any other item-fetch error it returns 500; and for a
  directory it returns 404 with no body and the content type \<open>application/xml\<close>.
\<close>

theorem Get_error_mapping:
  "(\<forall>e c. getClient env cache obj = (Inl e, c) \<longrightarrow>
       fst (Get env cache obj) = Inr (NewError 503 e)
       \<and> statusOf (fst (Get env cache obj)) = Some 503)
   \<and> (\<forall>client c. getClient env cache obj = (Inr client, c) \<longrightarrow>
         (Item client (getKey obj) = Inl ErrNotFound \<longrightarrow>
            statusOf (fst (Get env cache obj)) = Some 404
            \<and> bodyOf (fst (Get env cache obj))
                = Some (BodyString ''{\"error\":\"item not found\"}''))
       \<and> (\<forall>e. Item client (getKey obj) = Inl e \<and> e \<noteq> ErrNotFound \<longrightarrow>
            fst (Get env cache obj) = Inr (NewError 500 e)
            \<and> statusOf (fst (Get env cache obj)) = Some 500)
       \<and> (\<forall>item. Item client (getKey obj) = Inr item \<and> isDir item = Inr True \<longrightarrow>
            statusOf (fst (Get env cache obj)) = Some 404
            \<and> bodyOf (fst (Get env cache obj)) = Some NoBody
            \<and> headerOf (fst (Get env cache obj)) ''content-type'' = Some ''application/xml''))"
proof -
  have a: "\<forall>e c. getClient env cache obj = (Inl e, c) \<longrightarrow>
       fst (Get env cache obj) = Inr (NewError 503 e)
       \<and> statusOf (fst (Get env cache obj)) = Some 503"
    by (simp add: Get_def statusOf_def NewError_def)
  have b: "Item client (getKey obj) = Inl ErrNotFound \<longrightarrow>
            statusOf (fst (Get env cache obj)) = Some 404
            \<and> bodyOf (fst (Get env cache obj))
                = Some (BodyString ''{\"error\":\"item not found\"}'')"
    if "getClient env cache obj = (Inr client, c)" for client c
    using that by (simp add: Get_def observer_defs NewString_def notFound_def)
  have c: "\<forall>e. Item client (getKey obj) = Inl e \<and> e \<noteq> ErrNotFound \<longrightarrow>
            fst (Get env cache obj) = Inr (NewError 500 e)
            \<and> statusOf (fst (Get env cache obj)) = Some 500"
    if "getClient env cache obj = (Inr client, c)" for client c
    using that by (simp add: Get_def observer_defs NewError_def)
  have d: "\<forall>item. Item client (getKey obj) = Inr item \<and> isDir item = Inr True \<longrightarrow>
            statusOf (fst (Get env cache obj)) = Some 404
            \<and> bodyOf (fst (Get env cache obj)) = Some NoBody
            \<and> headerOf (fst (Get env cache obj)) ''content-type'' = Some ''application/xml''"
    if "getClient env cache obj = (Inr client, c)" for client c
    using that by (simp add: Get_def observer_defs response_defs lower_consts)
  show ?thesis using a b c d by blast
qed

lemma getClient_envDown:
  "getClient envDown Map.empty (mkObj ''s3'' [] ''k'') = (Inl (ErrOther ''denied''), Map.empty)"
  by (simp add: getClient_def example_defs HasPrefix_def)

lemma getClient_ok:
  "getClient (exEnv (Inr cont)) Map.empty (mkObj ''s3'' [] k) = (Inr cont, [''h'' \<mapsto> cont])"
  by (simp add: getClient_def example_defs)

lemma isDir_exItem: "isDir (exItem i [] sz) = Inr (sz = 0)"
  by (simp add: isDir_def exItem_def)

theorem Get_error_mapping_witness:
  "statusOf (fst (Get envDown Map.empty (mkObj ''s3'' [] ''k''))) = Some 503
   \<and> statusOf (fst (Get envAbsent Map.empty (mkObj ''s3'' [] ''k''))) = Some 404
   \<and> bodyOf (fst (Get envAbsent Map.empty (mkObj ''s3'' [] ''k'')))
       = Some (BodyString ''{\"error\":\"item not found\"}'')
   \<and> statusOf (fst (Get envBroken Map.empty (mkObj ''s3'' [] ''k''))) = Some 500
   \<and> statusOf (fst (Get envDir Map.empty (mkObj ''s3'' [] ''dir''))) = Some 404
   \<and> bodyOf (fst (Get envDir Map.empty (mkObj ''s3'' [] ''dir''))) = Some NoBody
   \<and> headerOf (fst (Get envDir Map.empty (mkObj ''s3'' [] ''dir''))) ''content-type''
       = Some ''application/xml''"
proof -
  note down = Get_error_mapping [of envDown Map.empty "mkObj ''s3'' [] ''k''",
      THEN conjunct1, rule_format, OF getClient_envDown, THEN conjunct2]
  have g1: "getClient envAbsent Map.empty (mkObj ''s3'' [] ''k'')
      = (Inr (exContainer (\<lambda>k. Inl ErrNotFound) [] None),
         [''h'' \<mapsto> exContainer (\<lambda>k. Inl ErrNotFound) [] None])"
    unfolding envAbsent_def by (rule getClient_ok)
  have i1: "Item (exContainer (\<lambda>k. Inl ErrNotFound) [] None) (getKey (mkObj ''s3'' [] ''k''))
      = Inl ErrNotFound"
    by (simp add: exContainer_def)
  note absent = Get_error_mapping [of envAbsent Map.empty "mkObj ''s3'' [] ''k''",
      THEN conjunct2, rule_format, OF g1, THEN conjunct1, rule_format, OF i1]
  have g2: "getClient envBroken Map.empty (mkObj ''s3'' [] ''k'')
      = (Inr (exContainer (\<lambda>k. Inl (ErrOther ''io'')) [] None),
         [''h'' \<mapsto> exContainer (\<lambda>k. Inl (ErrOther ''io'')) [] None])"
    unfolding envBroken_def by (rule getClient_ok)
  have i2: "Item (exContainer (\<lambda>k. Inl (ErrOther ''io'')) [] None) (getKey (mkObj ''s3'' [] ''k''))
      = Inl (ErrOther ''io'') \<and> ErrOther ''io'' \<noteq> ErrNotFound"
    by (simp add: exContainer_def)
  note broken = Get_error_mapping [of envBroken Map.empty "mkObj ''s3'' [] ''k''",
      THEN conjunct2, rule_format, OF g2, THEN conjunct2, THEN conjunct1, rule_format, OF i2,
      THEN conjunct2]
  have g3: "getClient envDir Map.empty (mkObj ''s3'' [] ''dir'')
      = (Inr (exContainer (\<lambda>k. Inr (exItem ''dir'' [] 0)) [] None),
         [''h'' \<mapsto> exContainer (\<lambda>k. Inr (exItem ''dir'' [] 0)) [] None])"
    unfolding envDir_def by (rule getClient_ok)
  have i3: "Item (exContainer (\<lambda>k. Inr (exItem ''dir'' [] 0)) [] None)
        (getKey (mkObj ''s3'' [] ''dir'')) = Inr (exItem ''dir'' [] 0)
      \<and> isDir (exItem ''dir'' [] 0) = Inr True"
    by (simp add: exContainer_def isDir_exItem)
  note dir = Get_error_mapping [of envDir Map.empty "mkObj ''s3'' [] ''dir''",
      THEN conjunct2, rule_format, OF g3, THEN conjunct2, THEN conjunct2, rule_format, OF i3]
  show ?thesis using down absent broken dir by (intro conjI) simp_all
qed

section \<open>Head against Get\<close>

lemma isDir_True_metadata: "isDir item = Inr True \<Longrightarrow> \<exists>md. itemMetadata item = Inr md"
  by (cases "itemMetadata item") (simp_all add: isDir_def)

text \<open>With readable metadata, a response that \<open>prepareResponse\<close> returns has status
  200 exactly when the ETag and the modification time are readable, and 500 otherwise.\<close>

lemma prepareResponse_status_200:
  assumes "itemMetadata item = Inr md" and "prepareResponse env obj st item = Inr res"
  shows "StatusCode res = 200
           \<longleftrightarrow> snd (itemETag item) = None \<and> snd (itemLastMod item) = None"
proof -
  have e500: "StatusCode (NewError 500 e) \<noteq> 200" for e by (simp add: NewError_def)
  obtain res1 where p: "parseMetadata obj md (New 200 st) = Inr res1"
    using assms by (cases "parseMetadata obj md (New 200 st)") (simp_all add: prepareResponse_cases)
  have s1: "StatusCode res1 = 200"
    using parseMetadata_keeps [OF p] by (simp add: New_def)
  show ?thesis
  proof (cases "snd (itemETag item) = None \<and> snd (itemLastMod item) = None")
    case True
    then have "resolveContentType env obj item md (withItemHeaders env item res1) = Inr res"
      using assms p by (simp add: prepareResponse_cases)
    then have "StatusCode res = StatusCode (withItemHeaders env item res1)"
      using resolveContentType_keeps by blast
    then show ?thesis using True s1 withItemHeaders_keeps [of env item res1] by simp
  next
    case False
    then have "\<exists>e. res = NewError 500 e"
      using assms p by (auto simp: prepareResponse_cases split: option.splits)
    then show ?thesis using False e500 by auto
  qed
qed

text \<open>
  C2, as the code has it. \<open>Head\<close> and \<open>Get\<close> return the same outcome when the client
  cannot be resolved and when the item fetch fails. For an item that is not a directory
  and whose stream opens, \<open>Get\<close> returns what \<open>prepareResponse\<close> builds around the
  stream, and \<open>Head\<close> returns the same with the stream taken away. For a directory
  \<open>Get\<close> returns 404 with no body and the content type \<open>application/xml\<close>, while \<open>Head\<close>
  returns what \<open>prepareResponse\<close> builds with no stream: every response it returns has
  status 200 or 500, and 200 exactly when the ETag and the modification time of the
  item are readable; it is never 404. \<open>Head\<close> returns no response at all when the
  metadata assembly ends in a panic.
\<close>

theorem Head_versus_Get:
  "(\<forall>e c. getClient env cache obj = (Inl e, c) \<longrightarrow> Head env cache obj = Get env cache obj)
   \<and> (\<forall>client c. getClient env cache obj = (Inr client, c) \<longrightarrow>
         (\<forall>e. Item client (getKey obj) = Inl e \<longrightarrow> Head env cache obj = Get env cache obj)
       \<and> (\<forall>item reader.
             Item client (getKey obj) = Inr item \<and> isDir item = Inr False
               \<and> itemOpen item = Inr reader \<longrightarrow>
             fst (Get env cache obj) = prepareResponse env obj (Some reader) item
             \<and> fst (Head env cache obj) = prepareResponse env obj None item
             \<and> fst (Head env cache obj) = withoutStream (fst (Get env cache obj))
             \<and> snd (Head env cache obj) = snd (Get env cache obj))
       \<and> (\<forall>item. Item client (getKey obj) = Inr item \<and> isDir item = Inr True \<longrightarrow>
             statusOf (fst (Get env cache obj)) = Some 404
             \<and> bodyOf (fst (Get env cache obj)) = Some NoBody
             \<and> headerOf (fst (Get env cache obj)) ''content-type'' = Some ''application/xml''
             \<and> fst (Head env cache obj) = prepareResponse env obj None item
             \<and> statusOf (fst (Head env cache obj)) \<noteq> Some 404
             \<and> (\<forall>res. fst (Head env cache obj) = Inr res \<longrightarrow>
                   (StatusCode res = 200 \<or> StatusCode res = 500)
                   \<and> (StatusCode res = 200
                        \<longleftrightarrow> snd (itemETag item) = None \<and> snd (itemLastMod item) = None))))"
proof -
  have a: "\<forall>e c. getClient env cache obj = (Inl e, c) \<longrightarrow> Head env cache obj = Get env cache obj"
    by (simp add: Get_def Head_def)
  have b: "\<forall>e. Item client (getKey obj) = Inl e \<longrightarrow> Head env cache obj = Get env cache obj"
    if "getClient env cache obj = (Inr client, c)" for client c
    using that by (simp add: Get_def Head_def)
  have c: "\<forall>item reader.
             Item client (getKey obj) = Inr item \<and> isDir item = Inr False
               \<and> itemOpen item = Inr reader \<longrightarrow>
             fst (Get env cache obj) = prepareResponse env obj (Some reader) item
             \<and> fst (Head env cache obj) = prepareResponse env obj None item
             \<and> fst (Head env cache obj) = withoutStream (fst (Get env cache obj))
             \<and> snd (Head env cache obj) = snd (Get env cache obj)"
    if "getClient env cache obj = (Inr client, c)" for client c
    using that prepareResponse_without_stream by (simp add: Get_def Head_def)
  have d: "\<forall>item. Item client (getKey obj) = Inr item \<and> isDir item = Inr True \<longrightarrow>
             statusOf (fst (Get env cache obj)) = Some 404
             \<and> bodyOf (fst (Get env cache obj)) = Some NoBody
             \<and> headerOf (fst (Get env cache obj)) ''content-type'' = Some ''application/xml''
             \<and> fst (Head env cache obj) = prepareResponse env obj None item
             \<and> statusOf (fst (Head env cache obj)) \<noteq> Some 404
             \<and> (\<forall>res. fst (Head env cache obj) = Inr res \<longrightarrow>
                   (StatusCode res = 200 \<or> StatusCode res = 500)
                   \<and> (StatusCode res = 200
                        \<longleftrightarrow> snd (itemETag item) = None \<and> snd (itemLastMod item) = None))"
    if g: "getClient env cache obj = (Inr client, c)" for client c
  proof (intro allI impI)
    fix item
    assume h: "Item client (getKey obj) = Inr item \<and> isDir item = Inr True"
    have g404: "statusOf (fst (Get env cache obj)) = Some 404"
      using g h by (simp add: Get_def statusOf_def response_defs)
    have gbody: "bodyOf (fst (Get env cache obj)) = Some NoBody"
      using g h by (simp add: Get_def bodyOf_def response_defs)
    have gct: "headerOf (fst (Get env cache obj)) ''content-type'' = Some ''application/xml''"
      using g h by (simp add: Get_def headerOf_def response_defs lower_consts)
    have hd: "fst (Head env cache obj) = prepareResponse env obj None item"
      using g h by (simp add: Head_def)
    obtain md where md: "itemMetadata item = Inr md"
      using h isDir_True_metadata by blast
    have n404: "statusOf (fst (Head env cache obj)) \<noteq> Some 404"
    proof (cases "prepareResponse env obj None item")
      case (Inl p)
      then show ?thesis by (simp add: hd statusOf_def)
    next
      case (Inr res)
      then show ?thesis
        using prepareResponse_status [OF Inr] by (auto simp: hd statusOf_def)
    qed
    have every: "\<forall>res. fst (Head env cache obj) = Inr res \<longrightarrow>
                   (StatusCode res = 200 \<or> StatusCode res = 500)
                   \<and> (StatusCode res = 200
                        \<longleftrightarrow> snd (itemETag item) = None \<and> snd (itemLastMod item) = None)"
      using prepareResponse_status [of env obj None item]
        prepareResponse_status_200 [OF md, of env obj None]
      by (simp add: hd)
    show "statusOf (fst (Get env cache obj)) = Some 404
             \<and> bodyOf (fst (Get env cache obj)) = Some NoBody
             \<and> headerOf (fst (Get env cache obj)) ''content-type'' = Some ''application/xml''
             \<and> fst (Head env cache obj) = prepareResponse env obj None item
             \<and> statusOf (fst (Head env cache obj)) \<noteq> Some 404
             \<and> (\<forall>res. fst (Head env cache obj) = Inr res \<longrightarrow>
                   (StatusCode res = 200 \<or> StatusCode res = 500)
                   \<and> (StatusCode res = 200
                        \<longleftrightarrow> snd (itemETag item) = None \<and> snd (itemLastMod item) = None))"
      by (rule conjI [OF g404 conjI [OF gbody conjI [OF gct conjI [OF hd conjI [OF n404 every]]]]])
  qed
  show ?thesis using a b c d by blast
qed

lemma getClient_envFile:
  "getClient envFile Map.empty (mkObj ''s3'' [] ''f.txt'')
      = (Inr (exContainer (\<lambda>k. Inr (exItem ''f.txt'' [] 5)) [] None),
         [''h'' \<mapsto> exContainer (\<lambda>k. Inr (exItem ''f.txt'' [] 5)) [] None])"
  unfolding envFile_def by (rule getClient_ok)

lemma getClient_envDir:
  "getClient envDir Map.empty (mkObj ''s3'' [] ''dir'')
      = (Inr (exContainer (\<lambda>k. Inr (exItem ''dir'' [] 0)) [] None),
         [''h'' \<mapsto> exContainer (\<lambda>k. Inr (exItem ''dir'' [] 0)) [] None])"
  unfolding envDir_def by (rule getClient_ok)

lemma prepareResponse_file:
  "prepareResponse envFile (mkObj ''s3'' [] ''f.txt'') st (exItem ''f.txt'' [] 5)
     = Inr \<lparr>StatusCode = 200,
            Headers = [''etag'' \<mapsto> ''etag1'',
                       ''last-modified'' \<mapsto> ''Thu, 01 Jan 1970 00:00:00 GMT'',
                       ''content-type'' \<mapsto> ''text/plain''],
            ContentLength = Some 5,
            Body = (case st of None \<Rightarrow> NoBody | Some r \<Rightarrow> BodyStream r)\<rparr>"
  by (simp add: prepareResponse_def example_defs parseMetadata_def
      resolveContentType_def response_defs Ext_def sep_def lower_consts)

lemma prepareResponse_dir:
  "prepareResponse envDir (mkObj ''s3'' [] ''dir'') None (exItem ''dir'' [] 0)
     = Inr \<lparr>StatusCode = 200,
            Headers = [''etag'' \<mapsto> ''etag1'',
                       ''last-modified'' \<mapsto> ''Thu, 01 Jan 1970 00:00:00 GMT'',
                       ''content-type'' \<mapsto> ''application/directory''],
            ContentLength = Some 0, Body = NoBody\<rparr>"
  by (simp add: prepareResponse_def example_defs parseMetadata_def isDir_def
      resolveContentType_def response_defs Ext_def sep_def lower_consts)

theorem Head_versus_Get_witness:
  "Head envDown Map.empty (mkObj ''s3'' [] ''k'') = Get envDown Map.empty (mkObj ''s3'' [] ''k'')
   \<and> Head envAbsent Map.empty (mkObj ''s3'' [] ''k'')
       = Get envAbsent Map.empty (mkObj ''s3'' [] ''k'')
   \<and> bodyOf (fst (Get envFile Map.empty (mkObj ''s3'' [] ''f.txt''))) = Some (BodyStream ''data'')
   \<and> fst (Head envFile Map.empty (mkObj ''s3'' [] ''f.txt''))
       = withoutStream (fst (Get envFile Map.empty (mkObj ''s3'' [] ''f.txt'')))
   \<and> bodyOf (fst (Head envFile Map.empty (mkObj ''s3'' [] ''f.txt''))) = Some NoBody
   \<and> statusOf (fst (Get envDir Map.empty (mkObj ''s3'' [] ''dir''))) = Some 404
   \<and> statusOf (fst (Head envDir Map.empty (mkObj ''s3'' [] ''dir''))) \<noteq> Some 404
   \<and> statusOf (fst (Head envDir Map.empty (mkObj ''s3'' [] ''dir''))) = Some 200
   \<and> statusOf (fst (Get envFlagged Map.empty (mkObj ''s3'' [] ''dir''))) = Some 404
   \<and> fst (Head envFlagged Map.empty (mkObj ''s3'' [] ''dir'')) = Inl TypeAssertion"
proof -
  note down = Head_versus_Get [of envDown Map.empty "mkObj ''s3'' [] ''k''",
      THEN conjunct1, rule_format, OF getClient_envDown]
  have g1: "getClient envAbsent Map.empty (mkObj ''s3'' [] ''k'')
      = (Inr (exContainer (\<lambda>k. Inl ErrNotFound) [] None),
         [''h'' \<mapsto> exContainer (\<lambda>k. Inl ErrNotFound) [] None])"
    unfolding envAbsent_def by (rule getClient_ok)
  have i1: "Item (exContainer (\<lambda>k. Inl ErrNotFound) [] None) (getKey (mkObj ''s3'' [] ''k''))
      = Inl ErrNotFound"
    by (simp add: exContainer_def)
  note absent = Head_versus_Get [of envAbsent Map.empty "mkObj ''s3'' [] ''k''",
      THEN conjunct2, rule_format, OF g1, THEN conjunct1, rule_format, OF i1]
  have i2: "Item (exContainer (\<lambda>k. Inr (exItem ''f.txt'' [] 5)) [] None)
        (getKey (mkObj ''s3'' [] ''f.txt'')) = Inr (exItem ''f.txt'' [] 5)
      \<and> isDir (exItem ''f.txt'' [] 5) = Inr False
      \<and> itemOpen (exItem ''f.txt'' [] 5) = Inr ''data''"
    by (simp add: exContainer_def isDir_exItem) (simp add: exItem_def)
  note fileCase = Head_versus_Get [of envFile Map.empty "mkObj ''s3'' [] ''f.txt''",
      THEN conjunct2, rule_format, OF getClient_envFile, THEN conjunct2, THEN conjunct1,
      rule_format, OF i2]
  have i3: "Item (exContainer (\<lambda>k. Inr (exItem ''dir'' [] 0)) [] None)
        (getKey (mkObj ''s3'' [] ''dir'')) = Inr (exItem ''dir'' [] 0)
      \<and> isDir (exItem ''dir'' [] 0) = Inr True"
    by (simp add: exContainer_def isDir_exItem)
  note dir = Head_versus_Get [of envDir Map.empty "mkObj ''s3'' [] ''dir''",
      THEN conjunct2, rule_format, OF getClient_envDir, THEN conjunct2, THEN conjunct2,
      rule_format, OF i3]
  have gb: "bodyOf (fst (Get envFile Map.empty (mkObj ''s3'' [] ''f.txt'')))
      = Some (BodyStream ''data'')"
    using fileCase by (simp add: prepareResponse_file bodyOf_def)
  have hb: "bodyOf (fst (Head envFile Map.empty (mkObj ''s3'' [] ''f.txt''))) = Some NoBody"
    using fileCase by (simp add: prepareResponse_file bodyOf_def)
  note w4 = fileCase [THEN conjunct2, THEN conjunct2, THEN conjunct1]
  note w6 = dir [THEN conjunct1]
  note dhead = dir [THEN conjunct2, THEN conjunct2, THEN conjunct2, THEN conjunct1]
  note w7 = dir [THEN conjunct2, THEN conjunct2, THEN conjunct2, THEN conjunct2, THEN conjunct1]
  note dall = dir [THEN conjunct2, THEN conjunct2, THEN conjunct2, THEN conjunct2,
      THEN conjunct2, rule_format]
  let ?rd = "\<lparr>StatusCode = 200,
            Headers = [''etag'' \<mapsto> ''etag1'',
                       ''last-modified'' \<mapsto> ''Thu, 01 Jan 1970 00:00:00 GMT'',
                       ''content-type'' \<mapsto> ''application/directory''],
            ContentLength = Some 0, Body = NoBody\<rparr>"
  have hr: "fst (Head envDir Map.empty (mkObj ''s3'' [] ''dir'')) = Inr ?rd"
    using dhead by (simp add: prepareResponse_dir)
  have rd: "snd (itemETag (exItem ''dir'' [] 0)) = None
      \<and> snd (itemLastMod (exItem ''dir'' [] 0)) = None"
    by (simp add: exItem_def)
  have "StatusCode ?rd = 200" using dall [OF hr, THEN conjunct2] rd by blast
  then have w8: "statusOf (fst (Head envDir Map.empty (mkObj ''s3'' [] ''dir''))) = Some 200"
    by (simp add: hr statusOf_def)
  have gf: "getClient envFlagged Map.empty (mkObj ''s3'' [] ''dir'')
      = (Inr (exContainer (\<lambda>k. Inr (exItem ''dir'' [(''is_dir'', VBool True)] 7)) [] None),
         [''h'' \<mapsto> exContainer (\<lambda>k. Inr (exItem ''dir'' [(''is_dir'', VBool True)] 7))
                      [] None])"
    unfolding envFlagged_def by (rule getClient_ok)
  have i4: "Item (exContainer (\<lambda>k. Inr (exItem ''dir'' [(''is_dir'', VBool True)] 7)) [] None)
        (getKey (mkObj ''s3'' [] ''dir'')) = Inr (exItem ''dir'' [(''is_dir'', VBool True)] 7)
      \<and> isDir (exItem ''dir'' [(''is_dir'', VBool True)] 7) = Inr True"
    by (simp add: exContainer_def isDir_def exItem_def)
  note flagged = Head_versus_Get [of envFlagged Map.empty "mkObj ''s3'' [] ''dir''",
      THEN conjunct2, rule_format, OF gf, THEN conjunct2, THEN conjunct2,
      rule_format, OF i4]
  note w9 = flagged [THEN conjunct1]
  have pf: "prepareResponse envFlagged (mkObj ''s3'' [] ''dir'') None
        (exItem ''dir'' [(''is_dir'', VBool True)] 7) = Inl TypeAssertion"
    by (simp add: prepareResponse_def exItem_def mkObj_def parseMetadata_def parseEntry_def
        parseEntryS3_def setString_def JoinDash_def New_def lower_defs HasPrefix_def)
  have w10: "fst (Head envFlagged Map.empty (mkObj ''s3'' [] ''dir'')) = Inl TypeAssertion"
    using flagged [THEN conjunct2, THEN conjunct2, THEN conjunct2, THEN conjunct1] pf by simp
  show ?thesis
    by (rule conjI [OF down conjI [OF absent conjI [OF gb conjI [OF w4 conjI [OF hb
          conjI [OF w6 conjI [OF w7 conjI [OF w8 conjI [OF w9 w10]]]]]]]]])
qed

text \<open>
  C2, as the spec states it, fails for a directory: on an item of size zero with no
  metadata \<open>Get\<close> answers 404, and \<open>Head\<close> answers 200 with the directory content type.
\<close>

theorem Head_directory_counterexample:
  "isDir (exItem ''dir'' [] 0) = Inr True
   \<and> statusOf (fst (Get envDir Map.empty (mkObj ''s3'' [] ''dir''))) = Some 404
   \<and> statusOf (fst (Head envDir Map.empty (mkObj ''s3'' [] ''dir''))) = Some 200
   \<and> headerOf (fst (Head envDir Map.empty (mkObj ''s3'' [] ''dir''))) ''content-type''
       = Some ''application/directory''"
proof -
  have i: "Item (exContainer (\<lambda>k. Inr (exItem ''dir'' [] 0)) [] None)
        (getKey (mkObj ''s3'' [] ''dir'')) = Inr (exItem ''dir'' [] 0)"
    by (simp add: exContainer_def)
  have g: "statusOf (fst (Get envDir Map.empty (mkObj ''s3'' [] ''dir''))) = Some 404"
    by (simp add: Get_def getClient_envDir i isDir_exItem statusOf_def response_defs)
  have h: "fst (Head envDir Map.empty (mkObj ''s3'' [] ''dir''))
      = prepareResponse envDir (mkObj ''s3'' [] ''dir'') None (exItem ''dir'' [] 0)"
    by (simp add: Head_def getClient_envDir i)
  show ?thesis
    using g by (simp add: h prepareResponse_dir isDir_exItem observer_defs)
qed

section \<open>Delete\<close>

text \<open>Once \<open>getClient\<close> has returned a container, a second call on the cache it left
  finds that container cached and changes nothing.\<close>

lemma getClient_again:
  "getClient env cache obj = (Inr client, c) \<Longrightarrow> getClient env c obj = (Inr client, c)"
  by (auto simp: getClient_def Let_def split: option.splits sum.splits if_splits)

lemma Head_again:
  assumes "getClient env cache obj = (Inr client, c)"
  shows "Head env c obj = Head env cache obj"
  using assms getClient_again [OF assms] by (simp add: Head_def)

lemma Head_unresolved:
  "getClient env cache obj = (Inl e, c) \<Longrightarrow> Head env cache obj = (Inr (NewError 503 e), c)"
  by (simp add: Head_def)

lemma Delete_unresolved:
  "getClient env cache obj = (Inl e, c) \<Longrightarrow> Delete env cache obj = (Inr (NewError 503 e), c)"
  by (simp add: Delete_def)

lemma Delete_resolved:
  assumes "getClient env cache obj = (Inr client, c)"
  shows "fst (Delete env cache obj) =
     (case fst (Head env cache obj) of
        Inl p \<Rightarrow> Inl p
      | Inr resHead \<Rightarrow>
          (if StatusCode resHead = 200 then
             (case RemoveItem client (getKey obj) of
                Some e \<Rightarrow> Inr (NewError 500 e)
              | None \<Rightarrow> Inr resHead)
           else if StatusCode resHead = 404 then Inr (NewNoContent 200)
           else Inr resHead))"
  using assms Head_again [OF assms]
  by (cases "Head env cache obj")
    (auto simp: Delete_def split: sum.splits option.splits)

text \<open>
  C3. With \<open>Head\<close> run on the state \<open>Delete\<close> starts from: if \<open>Head\<close> returns 404,
  \<open>Delete\<close> returns 200; if \<open>Head\<close> returns 200 and the removal fails, \<open>Delete\<close> returns
  500; if \<open>Head\<close> returns any other status, \<open>Delete\<close> returns the response of \<open>Head\<close>
  unchanged. The \<open>Head\<close> that \<open>Delete\<close> runs, on the cache left by its own client lookup,
  returns what \<open>Head\<close> returns on the starting state.
\<close>

theorem Delete_outcomes:
  "(\<forall>rh. fst (Head env cache obj) = Inr rh \<and> StatusCode rh = 404 \<longrightarrow>
       fst (Delete env cache obj) = Inr (NewNoContent 200)
       \<and> statusOf (fst (Delete env cache obj)) = Some 200)
   \<and> (\<forall>rh client c e.
         fst (Head env cache obj) = Inr rh \<and> StatusCode rh = 200
           \<and> getClient env cache obj = (Inr client, c)
           \<and> RemoveItem client (getKey obj) = Some e \<longrightarrow>
         fst (Delete env cache obj) = Inr (NewError 500 e)
         \<and> statusOf (fst (Delete env cache obj)) = Some 500)
   \<and> (\<forall>rh. fst (Head env cache obj) = Inr rh \<and> StatusCode rh \<noteq> 200 \<and> StatusCode rh \<noteq> 404 \<longrightarrow>
         fst (Delete env cache obj) = Inr rh)
   \<and> (\<forall>client c. getClient env cache obj = (Inr client, c) \<longrightarrow>
         Head env c obj = Head env cache obj)"
proof (cases "getClient env cache obj")
  case (Pair r c)
  show ?thesis
  proof (cases r)
    case (Inl e)
    have h: "fst (Head env cache obj) = Inr (NewError 503 e)"
      using Pair Inl by (simp add: Head_unresolved)
    have d: "fst (Delete env cache obj) = Inr (NewError 503 e)"
      using Pair Inl by (simp add: Delete_unresolved)
    have s: "StatusCode (NewError 503 e) = 503" by (simp add: NewError_def)
    show ?thesis using Pair Inl h d s by auto
  next
    case (Inr client)
    have g: "getClient env cache obj = (Inr client, c)" using Pair Inr by simp
    note del = Delete_resolved [OF g]
    have a: "\<forall>rh. fst (Head env cache obj) = Inr rh \<and> StatusCode rh = 404 \<longrightarrow>
       fst (Delete env cache obj) = Inr (NewNoContent 200)
       \<and> statusOf (fst (Delete env cache obj)) = Some 200"
      by (simp add: del statusOf_def response_defs)
    have b: "\<forall>rh client' c' e.
         fst (Head env cache obj) = Inr rh \<and> StatusCode rh = 200
           \<and> getClient env cache obj = (Inr client', c')
           \<and> RemoveItem client' (getKey obj) = Some e \<longrightarrow>
         fst (Delete env cache obj) = Inr (NewError 500 e)
         \<and> statusOf (fst (Delete env cache obj)) = Some 500"
      using g by (auto simp: del statusOf_def NewError_def)
    have c: "\<forall>rh. fst (Head env cache obj) = Inr rh \<and> StatusCode rh \<noteq> 200 \<and> StatusCode rh \<noteq> 404 \<longrightarrow>
         fst (Delete env cache obj) = Inr rh"
      by (simp add: del)
    have d: "\<forall>client' c'. getClient env cache obj = (Inr client', c') \<longrightarrow>
         Head env c' obj = Head env cache obj"
      using Head_again by blast
    show ?thesis using a b c d by blast
  qed
qed

lemma getClient_envStuck:
  "getClient envStuck Map.empty (mkObj ''s3'' [] ''f.txt'')
      = (Inr (exContainer (\<lambda>k. Inr (exItem ''f.txt'' [] 5)) [] (Some (ErrOther ''io''))),
         [''h'' \<mapsto> exContainer (\<lambda>k. Inr (exItem ''f.txt'' [] 5)) [] (Some (ErrOther ''io''))])"
  unfolding envStuck_def by (rule getClient_ok)

theorem Delete_outcomes_witness:
  "statusOf (fst (Head envAbsent Map.empty (mkObj ''s3'' [] ''k''))) = Some 404
   \<and> statusOf (fst (Delete envAbsent Map.empty (mkObj ''s3'' [] ''k''))) = Some 200
   \<and> statusOf (fst (Head envStuck Map.empty (mkObj ''s3'' [] ''f.txt''))) = Some 200
   \<and> statusOf (fst (Delete envStuck Map.empty (mkObj ''s3'' [] ''f.txt''))) = Some 500
   \<and> statusOf (fst (Head envDown Map.empty (mkObj ''s3'' [] ''k''))) = Some 503
   \<and> fst (Delete envDown Map.empty (mkObj ''s3'' [] ''k''))
       = fst (Head envDown Map.empty (mkObj ''s3'' [] ''k''))
   \<and> Head envAbsent [''h'' \<mapsto> exContainer (\<lambda>k. Inl ErrNotFound) [] None]
         (mkObj ''s3'' [] ''k'')
       = Head envAbsent Map.empty (mkObj ''s3'' [] ''k'')"
proof -
  have g1: "getClient envAbsent Map.empty (mkObj ''s3'' [] ''k'')
      = (Inr (exContainer (\<lambda>k. Inl ErrNotFound) [] None),
         [''h'' \<mapsto> exContainer (\<lambda>k. Inl ErrNotFound) [] None])"
    unfolding envAbsent_def by (rule getClient_ok)
  have h1: "fst (Head envAbsent Map.empty (mkObj ''s3'' [] ''k'')) = Inr (NewString 404 notFound)
      \<and> StatusCode (NewString 404 notFound) = 404"
    by (simp add: Head_def g1 exContainer_def NewString_def)
  note absent = Delete_outcomes [of envAbsent Map.empty "mkObj ''s3'' [] ''k''",
      THEN conjunct1, rule_format, OF h1, THEN conjunct2]
  let ?r = "\<lparr>StatusCode = 200,
            Headers = [''etag'' \<mapsto> ''etag1'',
                       ''last-modified'' \<mapsto> ''Thu, 01 Jan 1970 00:00:00 GMT'',
                       ''content-type'' \<mapsto> ''text/plain''],
            ContentLength = Some 5, Body = NoBody\<rparr>"
  have p: "prepareResponse envStuck (mkObj ''s3'' [] ''f.txt'') None (exItem ''f.txt'' [] 5)
      = Inr ?r"
    by (simp add: prepareResponse_def example_defs parseMetadata_def
        resolveContentType_def response_defs Ext_def sep_def lower_consts)
  have h2: "fst (Head envStuck Map.empty (mkObj ''s3'' [] ''f.txt'')) = Inr ?r
      \<and> StatusCode ?r = 200
      \<and> getClient envStuck Map.empty (mkObj ''s3'' [] ''f.txt'')
          = (Inr (exContainer (\<lambda>k. Inr (exItem ''f.txt'' [] 5)) [] (Some (ErrOther ''io''))),
             [''h'' \<mapsto> exContainer (\<lambda>k. Inr (exItem ''f.txt'' [] 5)) []
                          (Some (ErrOther ''io''))])
      \<and> RemoveItem (exContainer (\<lambda>k. Inr (exItem ''f.txt'' [] 5)) [] (Some (ErrOther ''io'')))
          (getKey (mkObj ''s3'' [] ''f.txt'')) = Some (ErrOther ''io'')"
    by (simp add: Head_def getClient_envStuck p exContainer_def)
  note stuck = Delete_outcomes [of envStuck Map.empty "mkObj ''s3'' [] ''f.txt''",
      THEN conjunct2, THEN conjunct1, rule_format, OF h2, THEN conjunct2]
  have h3: "fst (Head envDown Map.empty (mkObj ''s3'' [] ''k''))
        = Inr (NewError 503 (ErrOther ''denied''))
      \<and> StatusCode (NewError 503 (ErrOther ''denied'')) \<noteq> 200
      \<and> StatusCode (NewError 503 (ErrOther ''denied'')) \<noteq> 404"
    by (simp add: Head_unresolved [OF getClient_envDown] NewError_def)
  note down = Delete_outcomes [of envDown Map.empty "mkObj ''s3'' [] ''k''",
      THEN conjunct2, THEN conjunct2, THEN conjunct1, rule_format, OF h3]
  have s1: "statusOf (fst (Head envAbsent Map.empty (mkObj ''s3'' [] ''k''))) = Some 404"
    using h1 by (simp add: statusOf_def)
  have s2: "statusOf (fst (Head envStuck Map.empty (mkObj ''s3'' [] ''f.txt''))) = Some 200"
    using h2 by (simp add: statusOf_def)
  have s3: "statusOf (fst (Head envDown Map.empty (mkObj ''s3'' [] ''k''))) = Some 503"
    using h3 by (simp add: statusOf_def NewError_def)
  have d3: "fst (Delete envDown Map.empty (mkObj ''s3'' [] ''k''))
       = fst (Head envDown Map.empty (mkObj ''s3'' [] ''k''))"
    using down h3 by simp
  note again = Delete_outcomes [of envAbsent Map.empty "mkObj ''s3'' [] ''k''",
      THEN conjunct2, THEN conjunct2, THEN conjunct2, rule_format, OF g1]
  show ?thesis
    by (rule conjI [OF s1 conjI [OF absent conjI [OF s2 conjI [OF stuck conjI [OF s3
          conjI [OF d3 again]]]]]])
qed

section \<open>Listing\<close>

lemma listItem_fields:
  assumes "listItem env prefix item st = Inr st'"
  shows "IsTruncated (fst st') = IsTruncated (fst st) \<and> Marker (fst st') = Marker (fst st)"
proof -
  obtain key cp seen where k: "listKey prefix item (snd st) = Inr (key, cp, seen)"
    using assms by (cases "listKey prefix item (snd st)") (auto simp: listItem_def Let_def)
  show ?thesis
    using assms k by (auto simp: listItem_def Let_def split: if_splits)
qed

lemma listItems_fields:
  "listItems env prefix items st = Inr st'
     \<Longrightarrow> IsTruncated (fst st') = IsTruncated (fst st) \<and> Marker (fst st') = Marker (fst st)"
proof (induction items arbitrary: st)
  case Nil
  then show ?case by simp
next
  case (Cons item items)
  then obtain st1 where s: "listItem env prefix item st = Inr st1"
    and l: "listItems env prefix items st1 = Inr st'"
    by (auto split: sum.splits)
  show ?case using Cons.IH [OF l] listItem_fields [OF s] by simp
qed

lemma isDir_panic: "isDir item = Inl p \<Longrightarrow> p = TypeAssertion"
  by (auto simp: isDir_def split: sum.splits option.splits mval.splits prod.splits)

lemma listKey_panic: "listKey prefix item seen = Inl p \<Longrightarrow> p = TypeAssertion"
  by (auto simp: listKey_def Let_def split: if_splits sum.splits dest: isDir_panic)

lemma listItem_empty_id: "itemID item = [] \<Longrightarrow> \<exists>p. listItem env prefix item st = Inl p"
  by (cases "listKey prefix item (snd st)") (auto simp: listItem_def Let_def)

lemma listItem_index_panic:
  "listItem env prefix item st = Inl IndexOutOfRange \<Longrightarrow> itemID item = []"
  by (cases "listKey prefix item (snd st)")
    (auto simp: listItem_def Let_def split: if_splits dest: listKey_panic)

lemma listItem_panic_kind:
  "listItem env prefix item st = Inl p \<Longrightarrow> isDir item = Inr d \<Longrightarrow> p = IndexOutOfRange"
  by (auto simp: listItem_def listKey_def Let_def split: if_splits sum.splits prod.splits)

lemma listItems_panic_kind:
  "listItems env prefix items st = Inl p \<Longrightarrow> \<forall>it\<in>set items. \<exists>d. isDir it = Inr d
     \<Longrightarrow> p = IndexOutOfRange"
proof (induction items arbitrary: st)
  case Nil
  then show ?case by simp
next
  case (Cons item items)
  obtain d where d: "isDir item = Inr d" using Cons.prems(2) by auto
  show ?case
  proof (cases "listItem env prefix item st")
    case (Inl q)
    then have "q = p" using Cons.prems(1) by simp
    then show ?thesis using Inl d listItem_panic_kind by blast
  next
    case (Inr st1)
    then show ?thesis using Cons.IH [of st1] Cons.prems by simp
  qed
qed

lemma listItems_empty_id:
  "\<exists>it\<in>set items. itemID it = [] \<Longrightarrow> \<exists>p. listItems env prefix items st = Inl p"
proof (induction items arbitrary: st)
  case Nil
  then show ?case by simp
next
  case (Cons item items)
  show ?case
  proof (cases "listItem env prefix item st")
    case (Inl p)
    then show ?thesis by simp
  next
    case (Inr st1)
    then have "itemID item \<noteq> []" using listItem_empty_id [of item env prefix st] by auto
    then have "\<exists>it\<in>set items. itemID it = []" using Cons.prems by auto
    then show ?thesis using Cons.IH [of st1] Inr by simp
  qed
qed

lemma listItems_index_panic:
  "listItems env prefix items st = Inl IndexOutOfRange \<Longrightarrow> \<exists>it\<in>set items. itemID it = []"
proof (induction items arbitrary: st)
  case Nil
  then show ?case by simp
next
  case (Cons item items)
  show ?case
  proof (cases "listItem env prefix item st")
    case (Inl p)
    then have "p = IndexOutOfRange" using Cons.prems by simp
    then show ?thesis using Inl listItem_index_panic by auto
  next
    case (Inr st1)
    then show ?thesis using Cons.IH [of st1] Cons.prems by simp
  qed
qed

text \<open>\<open>List\<close> once the client is resolved, the existence check of the \<open>local-meta\<close>
  kind has passed and the backend has listed its items.\<close>

lemma ListOp_listed:
  assumes "getClient env cache obj = (Inr client, c)"
    and "\<not> (pathJoin [PathPrefix (objStorage obj), prefix0] \<noteq> []
            \<and> pathJoin [PathPrefix (objStorage obj), prefix0] \<noteq> ''/''
            \<and> Kind (objStorage obj) = ''local-meta''
            \<and> Item client (pathJoin [PathPrefix (objStorage obj), prefix0]) = Inl ErrNotFound)"
    and "Items client (pathJoin [PathPrefix (objStorage obj), prefix0]) marker maxKeys
           = Inr (items, resultMarker)"
  shows "fst (ListOp env cache obj maxKeys delimiter prefix0 marker) =
     (case listItems env (pathJoin [PathPrefix (objStorage obj), prefix0]) items
             (\<lparr>Name = objBucket obj, Prefix = pathJoin [PathPrefix (objStorage obj), prefix0],
               Marker = resultMarker, MaxKeys = maxKeys, IsTruncated = False,
               Contents = [], CommonPrefixes = []\<rparr>, Map.empty) of
        Inl p \<Rightarrow> Inl p
      | Inr st \<Rightarrow> Inr (SetContentType ''application/xml'' (NewBuf 200 (fst st))))"
  using assms by (auto simp: ListOp_def Let_def split: sum.splits)

text \<open>
  C9. Every \<open>List\<close> response with status 200 carries a listing whose \<open>IsTruncated\<close> is
  false and whose \<open>Marker\<close> is the marker that the backend returned with the items,
  whatever that marker and the marker of the caller are.
\<close>

theorem List_not_truncated:
  assumes "statusOf (fst (ListOp env cache obj maxKeys delimiter prefix0 marker)) = Some 200"
  shows "\<exists>client c items result.
           getClient env cache obj = (Inr client, c)
           \<and> Items client (pathJoin [PathPrefix (objStorage obj), prefix0]) marker maxKeys
               = Inr (items, Marker result)
           \<and> listingOf (fst (ListOp env cache obj maxKeys delimiter prefix0 marker))
               = Some result
           \<and> IsTruncated result = False"
proof -
  let ?prefix = "pathJoin [PathPrefix (objStorage obj), prefix0]"
  let ?L = "fst (ListOp env cache obj maxKeys delimiter prefix0 marker)"
  obtain r c where g: "getClient env cache obj = (r, c)" by (cases "getClient env cache obj")
  obtain client where r: "r = Inr client"
    using assms g by (cases r) (auto simp: ListOp_def statusOf_def NewError_def)
  have nf: "\<not> (?prefix \<noteq> [] \<and> ?prefix \<noteq> ''/'' \<and> Kind (objStorage obj) = ''local-meta''
            \<and> Item client ?prefix = Inl ErrNotFound)"
    using assms g r by (auto simp: ListOp_def Let_def statusOf_def NewString_def)
  obtain items rm where it: "Items client ?prefix marker maxKeys = Inr (items, rm)"
    using assms g r nf
    by (cases "Items client ?prefix marker maxKeys")
      (auto simp: ListOp_def Let_def statusOf_def NewError_def)
  note l = ListOp_listed [OF g [unfolded r] nf it, of delimiter]
  let ?st0 = "(\<lparr>Name = objBucket obj, Prefix = ?prefix, Marker = rm, MaxKeys = maxKeys,
               IsTruncated = False, Contents = [], CommonPrefixes = []\<rparr>, Map.empty)"
  obtain st where st: "listItems env ?prefix items ?st0 = Inr st"
    using assms l by (cases "listItems env ?prefix items ?st0") (auto simp: statusOf_def)
  have f: "IsTruncated (fst st) = False \<and> Marker (fst st) = rm"
    using listItems_fields [OF st] by simp
  have "listingOf ?L = Some (fst st)"
    using l st by (simp add: listingOf_def response_defs)
  with g r it f show ?thesis by auto
qed

lemma getClient_envFlat:
  "getClient envFlat Map.empty (mkObj ''s3'' [] k)
      = (Inr (exContainer (\<lambda>k. Inl ErrNotFound)
                [exItem ''a/b'' [] 5, exItem ''a/c'' [] 5, exItem ''a/d/e'' [] 5] None),
         [''h'' \<mapsto> exContainer (\<lambda>k. Inl ErrNotFound)
                [exItem ''a/b'' [] 5, exItem ''a/c'' [] 5, exItem ''a/d/e'' [] 5] None])"
  unfolding envFlat_def by (rule getClient_ok)

lemma pathJoin_a: "pathJoin [[], ''a/''] = ''a''"
  by (simp add: pathJoin_def joinStep_def Clean_def sep_def)

lemma listKey_under_a:
  assumes "itemID item = ''a/b'' \<or> itemID item = ''a/c'' \<or> itemID item = ''a/d/e''"
  shows "listKey ''a'' item seen =
     (if seen ''a'' = None then Inr (''a'', ''a'', seen(''a'' \<mapsto> True))
      else Inr (''a'', [], seen))"
  using assms by (auto simp: listKey_def Let_def sep_def)

lemma listItem_under_a:
  assumes "itemID item = ''a/b'' \<or> itemID item = ''a/c'' \<or> itemID item = ''a/d/e''"
  shows "listItem env ''a'' item (result, seen) =
     Inr (result\<lparr>Contents := Contents result @
                    [\<lparr>Key = ''a'', StorageClass = ''STANDARD'',
                      LastModified = FormatRFC3339 env (fst (itemLastMod item)),
                      ETag = fst (itemETag item), Size = fst (itemSize item)\<rparr>],
                 CommonPrefixes :=
                    (if seen ''a'' = None
                     then CommonPrefixes result @ [\<lparr>cpPrefix = ''a/''\<rparr>]
                     else CommonPrefixes result)\<rparr>,
          if seen ''a'' = None then seen(''a'' \<mapsto> True) else seen)"
  using assms by (auto simp: listItem_def listKey_under_a Let_def sep_def)

theorem List_not_truncated_witness:
  "statusOf (fst (ListOp envFlat Map.empty (mkObj ''s3'' [] ''k'') 1000 ''/'' ''a/'' ''m0''))
     = Some 200
   \<and> map_option IsTruncated
       (listingOf (fst (ListOp envFlat Map.empty (mkObj ''s3'' [] ''k'') 1000 ''/'' ''a/'' ''m0'')))
     = Some False
   \<and> map_option Marker
       (listingOf (fst (ListOp envFlat Map.empty (mkObj ''s3'' [] ''k'') 1000 ''/'' ''a/'' ''m0'')))
     = Some ''next''"
proof -
  let ?obj = "mkObj ''s3'' [] ''k''"
  let ?cont = "exContainer (\<lambda>k. Inl ErrNotFound)
                [exItem ''a/b'' [] 5, exItem ''a/c'' [] 5, exItem ''a/d/e'' [] 5] None"
  let ?L = "fst (ListOp envFlat Map.empty ?obj 1000 ''/'' ''a/'' ''m0'')"
  have pj: "pathJoin [PathPrefix (objStorage ?obj), ''a/''] = ''a''"
    by (simp add: mkObj_def pathJoin_a)
  have k: "Kind (objStorage ?obj) \<noteq> ''local-meta''" by (simp add: mkObj_def)
  have its: "Items ?cont ''a'' ''m0'' 1000
      = Inr ([exItem ''a/b'' [] 5, exItem ''a/c'' [] 5, exItem ''a/d/e'' [] 5], ''next'')"
    by (simp add: exContainer_def)
  have ids: "itemID (exItem ''a/b'' [] 5) = ''a/b''" "itemID (exItem ''a/c'' [] 5) = ''a/c''"
    "itemID (exItem ''a/d/e'' [] 5) = ''a/d/e''"
    by (simp_all add: exItem_def)
  have st: "statusOf ?L = Some 200"
    using ListOp_listed [of envFlat Map.empty ?obj ?cont _ "''a/''" "''m0''" 1000 _ "''next''" "''/''"]
      getClient_envFlat [of "''k''"] pj k its
    by (simp add: listItem_under_a ids statusOf_def response_defs)
  from List_not_truncated [OF st] obtain client c items result where
    g: "getClient envFlat Map.empty ?obj = (Inr client, c)"
    and i: "Items client (pathJoin [PathPrefix (objStorage ?obj), ''a/'']) ''m0'' 1000
        = Inr (items, Marker result)"
    and l: "listingOf ?L = Some result"
    and t: "IsTruncated result = False"
    by blast
  have "client = ?cont" using g getClient_envFlat [of "''k''"] by simp
  then have "Marker result = ''next''" using i pj its by simp
  then show ?thesis using st l t by simp
qed

text \<open>
  C10. When the backend lists an item whose id is the empty string, \<open>List\<close> ends in a
  panic, and the panic is the index out of range unless a type assertion of the
  directory test fails first; when every listed id is non-empty, \<open>List\<close> does not end
  in the index-out-of-range panic.
\<close>

theorem List_empty_item_id:
  "(\<forall>client c items rm.
       getClient env cache obj = (Inr client, c)
       \<and> \<not> (pathJoin [PathPrefix (objStorage obj), prefix0] \<noteq> []
            \<and> pathJoin [PathPrefix (objStorage obj), prefix0] \<noteq> ''/''
            \<and> Kind (objStorage obj) = ''local-meta''
            \<and> Item client (pathJoin [PathPrefix (objStorage obj), prefix0]) = Inl ErrNotFound)
       \<and> Items client (pathJoin [PathPrefix (objStorage obj), prefix0]) marker maxKeys
           = Inr (items, rm)
       \<and> (\<exists>it\<in>set items. itemID it = []) \<longrightarrow>
       (\<exists>p. fst (ListOp env cache obj maxKeys delimiter prefix0 marker) = Inl p)
       \<and> ((\<forall>it\<in>set items. \<exists>d. isDir it = Inr d) \<longrightarrow>
            fst (ListOp env cache obj maxKeys delimiter prefix0 marker) = Inl IndexOutOfRange))
   \<and> (\<forall>client c items rm.
       getClient env cache obj = (Inr client, c)
       \<and> Items client (pathJoin [PathPrefix (objStorage obj), prefix0]) marker maxKeys
           = Inr (items, rm)
       \<and> (\<forall>it\<in>set items. itemID it \<noteq> []) \<longrightarrow>
       fst (ListOp env cache obj maxKeys delimiter prefix0 marker) \<noteq> Inl IndexOutOfRange)"
proof (intro conjI allI impI)
  fix client c items rm
  let ?prefix = "pathJoin [PathPrefix (objStorage obj), prefix0]"
  assume h: "getClient env cache obj = (Inr client, c)
       \<and> \<not> (?prefix \<noteq> [] \<and> ?prefix \<noteq> ''/'' \<and> Kind (objStorage obj) = ''local-meta''
            \<and> Item client ?prefix = Inl ErrNotFound)
       \<and> Items client ?prefix marker maxKeys = Inr (items, rm)
       \<and> (\<exists>it\<in>set items. itemID it = [])"
  then have g: "getClient env cache obj = (Inr client, c)"
    and nf: "\<not> (?prefix \<noteq> [] \<and> ?prefix \<noteq> ''/'' \<and> Kind (objStorage obj) = ''local-meta''
            \<and> Item client ?prefix = Inl ErrNotFound)"
    and it: "Items client ?prefix marker maxKeys = Inr (items, rm)"
    and e: "\<exists>it\<in>set items. itemID it = []"
    by blast+
  let ?st0 = "(\<lparr>Name = objBucket obj, Prefix = ?prefix, Marker = rm, MaxKeys = maxKeys,
               IsTruncated = False, Contents = [], CommonPrefixes = []\<rparr>, Map.empty)"
  obtain p where "listItems env ?prefix items ?st0 = Inl p"
    using listItems_empty_id [OF e] by blast
  then have "fst (ListOp env cache obj maxKeys delimiter prefix0 marker) = Inl p"
    using ListOp_listed [OF g nf it, of delimiter] by simp
  then show "\<exists>p. fst (ListOp env cache obj maxKeys delimiter prefix0 marker) = Inl p"
    by blast
next
  fix client c items rm
  let ?prefix = "pathJoin [PathPrefix (objStorage obj), prefix0]"
  assume h: "getClient env cache obj = (Inr client, c)
       \<and> \<not> (?prefix \<noteq> [] \<and> ?prefix \<noteq> ''/'' \<and> Kind (objStorage obj) = ''local-meta''
            \<and> Item client ?prefix = Inl ErrNotFound)
       \<and> Items client ?prefix marker maxKeys = Inr (items, rm)
       \<and> (\<exists>it\<in>set items. itemID it = [])"
    and dirs: "\<forall>it\<in>set items. \<exists>d. isDir it = Inr d"
  from h have g: "getClient env cache obj = (Inr client, c)"
    and nf: "\<not> (?prefix \<noteq> [] \<and> ?prefix \<noteq> ''/'' \<and> Kind (objStorage obj) = ''local-meta''
            \<and> Item client ?prefix = Inl ErrNotFound)"
    and it: "Items client ?prefix marker maxKeys = Inr (items, rm)"
    and e: "\<exists>it\<in>set items. itemID it = []"
    by blast+
  let ?st0 = "(\<lparr>Name = objBucket obj, Prefix = ?prefix, Marker = rm, MaxKeys = maxKeys,
               IsTruncated = False, Contents = [], CommonPrefixes = []\<rparr>, Map.empty)"
  obtain p where p: "listItems env ?prefix items ?st0 = Inl p"
    using listItems_empty_id [OF e] by blast
  then have "p = IndexOutOfRange" using dirs by (rule listItems_panic_kind)
  with p show "fst (ListOp env cache obj maxKeys delimiter prefix0 marker) = Inl IndexOutOfRange"
    using ListOp_listed [OF g nf it, of delimiter] by simp
next
  fix client c items rm
  let ?prefix = "pathJoin [PathPrefix (objStorage obj), prefix0]"
  assume h: "getClient env cache obj = (Inr client, c)
       \<and> Items client ?prefix marker maxKeys = Inr (items, rm)
       \<and> (\<forall>it\<in>set items. itemID it \<noteq> [])"
  then have g: "getClient env cache obj = (Inr client, c)"
    and it: "Items client ?prefix marker maxKeys = Inr (items, rm)"
    and ne: "\<forall>it\<in>set items. itemID it \<noteq> []"
    by blast+
  show "fst (ListOp env cache obj maxKeys delimiter prefix0 marker) \<noteq> Inl IndexOutOfRange"
  proof
    assume a: "fst (ListOp env cache obj maxKeys delimiter prefix0 marker) = Inl IndexOutOfRange"
    have nf: "\<not> (?prefix \<noteq> [] \<and> ?prefix \<noteq> ''/'' \<and> Kind (objStorage obj) = ''local-meta''
            \<and> Item client ?prefix = Inl ErrNotFound)"
      using a g by (auto simp: ListOp_def Let_def)
    let ?st0 = "(\<lparr>Name = objBucket obj, Prefix = ?prefix, Marker = rm, MaxKeys = maxKeys,
               IsTruncated = False, Contents = [], CommonPrefixes = []\<rparr>, Map.empty)"
    have "listItems env ?prefix items ?st0 = Inl IndexOutOfRange"
      using a ListOp_listed [OF g nf it, of delimiter]
      by (cases "listItems env ?prefix items ?st0") simp_all
    then have "\<exists>it\<in>set items. itemID it = []" by (rule listItems_index_panic)
    with ne show False by blast
  qed
qed

lemma getClient_envEmptyId:
  "getClient envEmptyId Map.empty (mkObj ''s3'' [] k)
      = (Inr (exContainer (\<lambda>k. Inl ErrNotFound) [exItem ''a/b'' [] 5, exItem [] [] 5] None),
         [''h'' \<mapsto> exContainer (\<lambda>k. Inl ErrNotFound)
                      [exItem ''a/b'' [] 5, exItem [] [] 5] None])"
  unfolding envEmptyId_def by (rule getClient_ok)

theorem List_empty_item_id_witness:
  "(\<exists>p. fst (ListOp envEmptyId Map.empty (mkObj ''s3'' [] ''k'') 1000 ''/'' ''a/'' []) = Inl p)
   \<and> fst (ListOp envEmptyId Map.empty (mkObj ''s3'' [] ''k'') 1000 ''/'' ''a/'' [])
       = Inl IndexOutOfRange
   \<and> fst (ListOp envFlat Map.empty (mkObj ''s3'' [] ''k'') 1000 ''/'' ''a/'' [])
       \<noteq> Inl IndexOutOfRange"
proof -
  let ?obj = "mkObj ''s3'' [] ''k''"
  let ?ce = "exContainer (\<lambda>k. Inl ErrNotFound) [exItem ''a/b'' [] 5, exItem [] [] 5] None"
  let ?cf = "exContainer (\<lambda>k. Inl ErrNotFound)
                [exItem ''a/b'' [] 5, exItem ''a/c'' [] 5, exItem ''a/d/e'' [] 5] None"
  have pj: "pathJoin [PathPrefix (objStorage ?obj), ''a/''] = ''a''"
    by (simp add: mkObj_def pathJoin_a)
  have k: "Kind (objStorage ?obj) \<noteq> ''local-meta''" by (simp add: mkObj_def)
  have he: "getClient envEmptyId Map.empty ?obj = (Inr ?ce, [''h'' \<mapsto> ?ce])
       \<and> \<not> (pathJoin [PathPrefix (objStorage ?obj), ''a/''] \<noteq> []
            \<and> pathJoin [PathPrefix (objStorage ?obj), ''a/''] \<noteq> ''/''
            \<and> Kind (objStorage ?obj) = ''local-meta''
            \<and> Item ?ce (pathJoin [PathPrefix (objStorage ?obj), ''a/'']) = Inl ErrNotFound)
       \<and> Items ?ce (pathJoin [PathPrefix (objStorage ?obj), ''a/'']) [] 1000
           = Inr ([exItem ''a/b'' [] 5, exItem [] [] 5], ''next'')
       \<and> (\<exists>it\<in>set [exItem ''a/b'' [] 5, exItem [] [] 5]. itemID it = [])"
    using k by (simp add: getClient_envEmptyId pj) (simp add: exContainer_def exItem_def)
  note w0 = List_empty_item_id [of envEmptyId Map.empty ?obj "''a/''" "[]" 1000 "''/''",
      THEN conjunct1, rule_format, OF he]
  note w1 = w0 [THEN conjunct1]
  have dirs: "\<forall>it\<in>set [exItem ''a/b'' [] 5, exItem [] [] 5]. \<exists>d. isDir it = Inr d"
    by (auto simp: isDir_exItem)
  note w2 = w0 [THEN conjunct2, THEN mp, OF dirs]
  have hf: "getClient envFlat Map.empty ?obj = (Inr ?cf, [''h'' \<mapsto> ?cf])
       \<and> Items ?cf (pathJoin [PathPrefix (objStorage ?obj), ''a/'']) [] 1000
           = Inr ([exItem ''a/b'' [] 5, exItem ''a/c'' [] 5, exItem ''a/d/e'' [] 5], ''next'')
       \<and> (\<forall>it\<in>set [exItem ''a/b'' [] 5, exItem ''a/c'' [] 5, exItem ''a/d/e'' [] 5].
             itemID it \<noteq> [])"
    by (simp add: getClient_envFlat pj) (simp add: exContainer_def exItem_def)
  note w3 = List_empty_item_id [of envFlat Map.empty ?obj "''a/''" "[]" 1000 "''/''",
      THEN conjunct2, rule_format, OF hf]
  show ?thesis by (rule conjI [OF w1 conjI [OF w2 w3]])
qed

text \<open>
  C1, on the code. The logical prefix \<open>a/\<close> joined with the empty path prefix is the
  effective prefix \<open>a\<close>. For every backend that lists exactly items with the ids \<open>a/b\<close>,
  \<open>a/c\<close> and \<open>a/d/e\<close> for it, \<open>List\<close> returns a listing with three content entries whose
  keys are all \<open>a\<close>, and with the single common prefix \<open>a/\<close>: the entries \<open>a/b\<close>, \<open>a/c\<close>
  and \<open>a/d/\<close> that the spec names do not appear.
\<close>

theorem List_flat_keys:
  assumes "getClient env cache obj = (Inr client, c)"
    and "PathPrefix (objStorage obj) = []"
    and "\<not> (Kind (objStorage obj) = ''local-meta'' \<and> Item client ''a'' = Inl ErrNotFound)"
    and "Items client ''a'' marker maxKeys = Inr (items, rm)"
    and "map itemID items = [''a/b'', ''a/c'', ''a/d/e'']"
  shows "\<exists>result.
           listingOf (fst (ListOp env cache obj maxKeys delimiter ''a/'' marker)) = Some result
           \<and> map Key (Contents result) = [''a'', ''a'', ''a'']
           \<and> map cpPrefix (CommonPrefixes result) = [''a/'']"
proof -
  obtain i1 i2 i3 where items: "items = [i1, i2, i3]"
    and ids: "itemID i1 = ''a/b''" "itemID i2 = ''a/c''" "itemID i3 = ''a/d/e''"
    using assms(5) by (auto simp: map_eq_Cons_conv)
  have pj: "pathJoin [PathPrefix (objStorage obj), ''a/''] = ''a''"
    using assms(2) by (simp add: pathJoin_a)
  have nf: "\<not> (pathJoin [PathPrefix (objStorage obj), ''a/''] \<noteq> []
            \<and> pathJoin [PathPrefix (objStorage obj), ''a/''] \<noteq> ''/''
            \<and> Kind (objStorage obj) = ''local-meta''
            \<and> Item client (pathJoin [PathPrefix (objStorage obj), ''a/'']) = Inl ErrNotFound)"
    using assms(3) pj by simp
  have it: "Items client (pathJoin [PathPrefix (objStorage obj), ''a/'']) marker maxKeys
      = Inr (items, rm)"
    using assms(4) pj by simp
  show ?thesis
    using ListOp_listed [OF assms(1) nf it, of delimiter]
    by (simp add: pj items listItem_under_a ids listingOf_def response_defs)
qed

theorem List_flat_keys_witness:
  "map_option (\<lambda>result. map Key (Contents result))
       (listingOf (fst (ListOp envFlat Map.empty (mkObj ''s3'' [] ''a/'') 1000 ''/'' ''a/'' [])))
     = Some [''a'', ''a'', ''a'']
   \<and> map_option (\<lambda>result. map cpPrefix (CommonPrefixes result))
       (listingOf (fst (ListOp envFlat Map.empty (mkObj ''s3'' [] ''a/'') 1000 ''/'' ''a/'' [])))
     = Some [''a/'']"
proof -
  let ?obj = "mkObj ''s3'' [] ''a/''"
  let ?cf = "exContainer (\<lambda>k. Inl ErrNotFound)
                [exItem ''a/b'' [] 5, exItem ''a/c'' [] 5, exItem ''a/d/e'' [] 5] None"
  have g: "getClient envFlat Map.empty ?obj = (Inr ?cf, [''h'' \<mapsto> ?cf])"
    by (rule getClient_envFlat)
  have p: "PathPrefix (objStorage ?obj) = []" by (simp add: mkObj_def)
  have k: "\<not> (Kind (objStorage ?obj) = ''local-meta'' \<and> Item ?cf ''a'' = Inl ErrNotFound)"
    by (simp add: mkObj_def)
  have i: "Items ?cf ''a'' [] 1000
      = Inr ([exItem ''a/b'' [] 5, exItem ''a/c'' [] 5, exItem ''a/d/e'' [] 5], ''next'')"
    by (simp add: exContainer_def)
  have m: "map itemID [exItem ''a/b'' [] 5, exItem ''a/c'' [] 5, exItem ''a/d/e'' [] 5]
      = [''a/b'', ''a/c'', ''a/d/e'']"
    by (simp add: exItem_def)
  from List_flat_keys [OF g p k i m, of "''/''"] show ?thesis by auto
qed

end
